theory Spec2Isabelle
  imports Main "HOL-Library.AList"
begin

section \<open>Errors\<close>

text \<open>
  Every exception the modelled code can raise is a value. A \<open>GrammarError\<close> carries
  which of the source's messages it is, with the names the message is formatted with
  (line and column texts are left out).
\<close>

datatype grammar_error =
    Regex_compile_error string
  | No_recognizer_and_none_given string
  | No_recognizer string
  | Multiple_actions string
  | Terminal_already_exists string string string
  | Unknown_symbol string string
  | Keyword_not_regex
  | Modifier_on_optional string

datatype error =
    GrammarError grammar_error
  | AttributeError string
  | AssertionError
  | IndexError
  | TypeError

section \<open>Grammar symbols\<close>

text \<open>
  \<open>escape\<close>: \<^verbatim>\<open>instr.replace('\n', r'\n').replace('\t', r'\t')\<close>. Both patterns are
  one character long, so each \<open>replace\<close> is a character-wise substitution.
\<close>

definition replace_char :: "char \<Rightarrow> string \<Rightarrow> string \<Rightarrow> string" where
  "replace_char c r s = concat (map (\<lambda>x. if x = c then r else [x]) s)"

definition escape :: "string \<Rightarrow> string" where
  "escape instr =
     replace_char (CHR 0x09) [CHR 0x5C, CHR ''t'']
       (replace_char (CHR 0x0A) [CHR 0x5C, CHR ''n''] instr)"

text \<open>
  A symbol object is a \<open>Terminal\<close>, a \<open>NonTerminal\<close> or a \<open>Reference\<close>. The record is
  the object as a reference sees it: \<open>oid\<close> is its identity (Python's \<open>is\<close> compares
  \<open>oid\<close>: the objects of the module itself are \<open>Module_object\<close>s, an object
  created at run time is \<open>Allocated n\<close>, \<open>n\<close> counting the allocations),
  \<open>init_name\<close> is the name its constructor was called with, and
  \<open>action_name\<close> the attribute of that name (a \<open>Reference\<close> has none). The attributes
  that grammar construction reassigns (\<open>recognizer\<close>, \<open>keyword\<close>) are kept in a store
  indexed by \<open>oid\<close>, see below. \<open>GrammarSymbol.__init__\<close> stores \<open>escape(name)\<close>
  as \<open>self.name\<close> and \<open>hash(name)\<close> as \<open>self._hash\<close>; \<open>Reference.__init__\<close> stores
  the name as it is.
\<close>

datatype cls = Terminal | NonTerminal | Reference

datatype oid = Module_object nat | Allocated nat

record sym =
  oid :: oid
  cls :: cls
  init_name :: string
  action_name :: "string option"

definition name :: "sym \<Rightarrow> string" where
  "name s = (if cls s = Reference then init_name s else escape (init_name s))"

definition Terminal_new :: "oid \<Rightarrow> string \<Rightarrow> sym" where
  "Terminal_new i nm = \<lparr>oid = i, cls = Terminal, init_name = nm, action_name = None\<rparr>"

definition NonTerminal_new :: "oid \<Rightarrow> string \<Rightarrow> sym" where
  "NonTerminal_new i nm = \<lparr>oid = i, cls = NonTerminal, init_name = nm, action_name = None\<rparr>"

definition Reference_new :: "oid \<Rightarrow> string \<Rightarrow> sym" where
  "Reference_new i nm = \<lparr>oid = i, cls = Reference, init_name = nm, action_name = None\<rparr>"

text \<open>The module's singletons.\<close>

definition AUGSYMBOL :: sym where
  "AUGSYMBOL = NonTerminal_new (Module_object 0) [CHR ''S'', CHR 0x27]"

definition STOP :: sym where
  "STOP = Terminal_new (Module_object 1) ''STOP''"

definition EMPTY :: sym where
  "EMPTY = Terminal_new (Module_object 2) ''EMPTY''"

definition EOF :: sym where
  "EOF = Terminal_new (Module_object 3) ''EOF''"

text \<open>
  \<open>a == b\<close>: \<open>GrammarSymbol.__eq__\<close> compares the names; a \<open>Reference\<close> defines no
  \<open>__eq__\<close>, so Python tries the reflected \<open>b.__eq__(a)\<close>, and two references are
  equal only when identical. \<open>list.count\<close> and the set and dict lookups take identical
  objects as equal before they call \<open>__eq__\<close>.
\<close>

definition py_eq :: "sym \<Rightarrow> sym \<Rightarrow> bool" where
  "py_eq a b \<longleftrightarrow>
     oid a = oid b \<or> (\<not> (cls a = Reference \<and> cls b = Reference) \<and> name a = name b)"

section \<open>ProductionRHS\<close>

text \<open>
  \<open>ProductionRHS\<close> subclasses \<open>list\<close>; the model is the backing list.
  \<open>list_getitem\<close> is \<open>list.__getitem__\<close> at an integer index: a negative index counts
  from the end, an index out of range raises \<open>IndexError\<close>.
\<close>

type_synonym ProductionRHS = "sym list"

definition list_getitem :: "'a list \<Rightarrow> int \<Rightarrow> error + 'a" where
  "list_getitem xs idx =
     (let n = int (length xs); j = (if idx < 0 then n + idx else idx)
      in if 0 \<le> j \<and> j < n then Inr (xs ! nat j) else Inl IndexError)"

text \<open>
  \<open>__getitem__\<close>: read at \<open>idx\<close>, and while the element read is the \<open>EMPTY\<close>
  singleton move one place to the right; an \<open>IndexError\<close> is caught and \<open>None\<close>
  returned.
\<close>

function ProductionRHS_getitem :: "ProductionRHS \<Rightarrow> int \<Rightarrow> sym option" where
  "ProductionRHS_getitem xs idx =
     (case list_getitem xs idx of
        Inl e \<Rightarrow> None
      | Inr symbol \<Rightarrow>
          if oid symbol \<noteq> oid EMPTY then Some symbol
          else ProductionRHS_getitem xs (idx + 1))"
  by pat_completeness auto
termination
  by (relation "measure (\<lambda>(xs, idx). nat (int (length xs) - idx))")
     (auto simp: list_getitem_def Let_def split: if_splits)

declare ProductionRHS_getitem.simps [simp del]

text \<open>\<open>__len__\<close>: the length of the backing list minus \<open>self.count(EMPTY)\<close>.\<close>

definition ProductionRHS_len :: "ProductionRHS \<Rightarrow> nat" where
  "ProductionRHS_len xs = length xs - length (filter (\<lambda>x. py_eq x EMPTY) xs)"

text \<open>The elements that are not the \<open>EMPTY\<close> singleton, in order.\<close>

definition non_EMPTY :: "ProductionRHS \<Rightarrow> sym list" where
  "non_EMPTY xs = filter (\<lambda>x. oid x \<noteq> oid EMPTY) xs"

section \<open>Productions\<close>

text \<open>
  A \<open>Production\<close> object. \<open>prod_id\<close> and \<open>prod_symbol_id\<close> are attributes that
  only \<open>_enumerate_productions\<close> creates: \<open>None\<close> is the attribute still missing. The
  \<open>assignments\<close> dictionary is left out: none of the modelled functions reads it.
\<close>

definition ASSOC_NONE :: nat where
  "ASSOC_NONE = 0"

definition DEFAULT_PRIORITY :: nat where
  "DEFAULT_PRIORITY = 10"

record production =
  symbol :: sym
  rhs :: ProductionRHS
  assoc :: nat
  prior :: nat
  dynamic :: bool
  nops :: bool
  nopse :: bool
  prod_id :: "nat option"
  prod_symbol_id :: "nat option"

text \<open>
  \<open>Production.__init__\<close>: \<^verbatim>\<open>self.rhs = rhs if rhs else ProductionRHS()\<close>. The truth
  value of a \<open>ProductionRHS\<close> is that of its \<open>__len__\<close>, so a right-hand side of
  \<open>EMPTY\<close> elements only is replaced by a new, empty one.
\<close>

definition Production_init ::
  "sym \<Rightarrow> ProductionRHS \<Rightarrow> nat \<Rightarrow> nat \<Rightarrow> bool \<Rightarrow> bool \<Rightarrow> bool \<Rightarrow> production" where
  "Production_init sy r a pr dy np npse =
     \<lparr>symbol = sy, rhs = (if ProductionRHS_len r \<noteq> 0 then r else []),
      assoc = a, prior = pr, dynamic = dy, nops = np, nopse = npse,
      prod_id = None, prod_symbol_id = None\<rparr>"

text \<open>The constructor with every keyword argument at its default.\<close>

definition Production_new :: "sym \<Rightarrow> ProductionRHS \<Rightarrow> production" where
  "Production_new sy r = Production_init sy r ASSOC_NONE DEFAULT_PRIORITY False False False"

section \<open>Repetition desugaring\<close>

text \<open>
  The parse context, as far as the repetition actions use it: the attribute
  \<open>new_productions\<close> (\<open>None\<close> while the attribute does not exist), a dictionary from
  the generated name to the pair of the auxiliary non-terminal and its productions, kept
  as an association list in insertion order; and \<open>allocated\<close>, the number of objects
  created so far, from which a constructor call takes the identity of the new object.
\<close>

record parse_context =
  new_productions :: "(string \<times> sym \<times> production list) list option"
  allocated :: nat

text \<open>
  The \<open>action\<close> argument of \<open>make_repetition\<close>: a text (the name of a built-in
  action) or a callable. Only a text is stored as \<open>action_name\<close>.
\<close>

datatype action = Action_text string | Action_callable

text \<open>
  \<open>make_repetition\<close>. \<open>prod_callable\<close> is a closure of the caller: it may itself
  desugar (and so change the context) and may raise.
\<close>

definition make_repetition ::
  "parse_context \<Rightarrow> sym \<Rightarrow> sym option \<Rightarrow> string \<Rightarrow> action
   \<Rightarrow> (parse_context \<Rightarrow> sym \<Rightarrow> error + production list \<times> parse_context)
   \<Rightarrow> error + sym \<times> parse_context" where
  "make_repetition context0 gsymbol sep_ref suffix act prod_callable =
     (let new_gsymbol_name =
            (case sep_ref of
               None \<Rightarrow> name gsymbol @ suffix
             | Some sep \<Rightarrow> name gsymbol @ suffix @ ''_'' @ name sep);
          context1 = (case new_productions context0 of
                        None \<Rightarrow> context0\<lparr>new_productions := Some []\<rparr>
                      | Some _ \<Rightarrow> context0)
      in case new_productions context1 of
           None \<Rightarrow> Inl (AttributeError ''new_productions'')
         | Some np \<Rightarrow>
             (case map_of np new_gsymbol_name of
                Some (nt, _) \<Rightarrow> Inr (nt, context1)
              | None \<Rightarrow>
                  (let new_nt0 = NonTerminal_new (Allocated (allocated context1)) new_gsymbol_name;
                       new_nt = (case act of
                                   Action_text a \<Rightarrow> new_nt0\<lparr>action_name := Some a\<rparr>
                                 | Action_callable \<Rightarrow> new_nt0);
                       context2 = context1\<lparr>allocated := Suc (allocated context1)\<rparr>
                   in case prod_callable context2 new_nt of
                        Inl e \<Rightarrow> Inl e
                      | Inr (new_prods, context3) \<Rightarrow>
                          (case new_productions context3 of
                             None \<Rightarrow> Inl (AttributeError ''new_productions'')
                           | Some np3 \<Rightarrow>
                               Inr (new_nt,
                                    context3\<lparr>new_productions :=
                                      Some (AList.update new_gsymbol_name (new_nt, new_prods) np3)\<rparr>)))))"

definition make_one_or_more :: "parse_context \<Rightarrow> sym \<Rightarrow> sym option \<Rightarrow> error + sym \<times> parse_context" where
  "make_one_or_more context0 gsymbol sep_ref =
     make_repetition context0 gsymbol sep_ref ''_1''
       (Action_text (if sep_ref = None then ''collect'' else ''collect_sep''))
       (\<lambda>ctx new_nt.
          Inr ((case sep_ref of
                  Some sep \<Rightarrow> [Production_new new_nt [new_nt, sep, gsymbol]]
                | None \<Rightarrow> [Production_new new_nt [new_nt, gsymbol]])
               @ [Production_new new_nt [gsymbol]], ctx))"

definition make_zero_or_more :: "parse_context \<Rightarrow> sym \<Rightarrow> sym option \<Rightarrow> error + sym \<times> parse_context" where
  "make_zero_or_more context0 gsymbol sep_ref =
     make_repetition context0 gsymbol sep_ref ''_0'' Action_callable
       (\<lambda>ctx new_nt.
          case make_one_or_more ctx gsymbol sep_ref of
            Inl e \<Rightarrow> Inl e
          | Inr (one_or_more, ctx') \<Rightarrow>
              Inr ([Production_init new_nt [one_or_more]
                      ASSOC_NONE DEFAULT_PRIORITY False True False,
                    Production_new new_nt [EMPTY]], ctx'))"

definition make_optional :: "parse_context \<Rightarrow> sym \<Rightarrow> sym option \<Rightarrow> error + sym \<times> parse_context" where
  "make_optional context0 gsymbol sep_ref =
     make_repetition context0 gsymbol sep_ref ''_opt'' (Action_text ''optional'')
       (\<lambda>ctx new_nt.
          if sep_ref \<noteq> None then Inl (GrammarError (Modifier_on_optional (name gsymbol)))
          else Inr ([Production_new new_nt [gsymbol], Production_new new_nt [EMPTY]], ctx))"

text \<open>
  \<open>act_repeatable_gsymbol\<close>. The node of the operator is \<open>None\<close> when there is no
  operator, else the operator's text with the separator name of its modifier, if any
  (\<^verbatim>\<open>modifiers[1]\<close>); the separator becomes a new \<open>Reference\<close>. Any operator other
  than \<open>*\<close> and \<open>+\<close> falls to the last branch, as in the source.
\<close>

definition MULT_ONE :: string where
  "MULT_ONE = ''1''"

definition MULT_OPTIONAL :: string where
  "MULT_OPTIONAL = ''0..1''"

definition MULT_ONE_OR_MORE :: string where
  "MULT_ONE_OR_MORE = ''1..*''"

definition MULT_ZERO_OR_MORE :: string where
  "MULT_ZERO_OR_MORE = ''0..*''"

definition act_repeatable_gsymbol ::
  "parse_context \<Rightarrow> sym \<times> (string \<times> string option) option
   \<Rightarrow> error + (sym \<times> sym \<times> string) \<times> parse_context" where
  "act_repeatable_gsymbol context0 nodes =
     (case nodes of
        (gsymbol, None) \<Rightarrow> Inr ((gsymbol, gsymbol, MULT_ONE), context0)
      | (gsymbol, Some (rep_op, modifiers)) \<Rightarrow>
          (let (sep_ref, context1) =
                 (case modifiers of
                    None \<Rightarrow> (None, context0)
                  | Some sep \<Rightarrow>
                      (Some (Reference_new (Allocated (allocated context0)) sep),
                       context0\<lparr>allocated := Suc (allocated context0)\<rparr>))
           in if rep_op = ''*'' then
                (case make_zero_or_more context1 gsymbol sep_ref of
                   Inl e \<Rightarrow> Inl e
                 | Inr (new_nt, c) \<Rightarrow> Inr ((new_nt, gsymbol, MULT_ZERO_OR_MORE), c))
              else if rep_op = ''+'' then
                (case make_one_or_more context1 gsymbol sep_ref of
                   Inl e \<Rightarrow> Inl e
                 | Inr (new_nt, c) \<Rightarrow> Inr ((new_nt, gsymbol, MULT_ONE_OR_MORE), c))
              else
                (case make_optional context1 gsymbol sep_ref of
                   Inl e \<Rightarrow> Inl e
                 | Inr (new_nt, c) \<Rightarrow> Inr ((new_nt, gsymbol, MULT_OPTIONAL), c))))"

text \<open>
  The parser fires \<open>act_repeatable_gsymbol\<close> once for every symbol occurrence of the
  grammar text, in text order, on the one context of the compilation; the first error
  aborts the parse.
\<close>

fun act_repeatable_gsymbols ::
  "parse_context \<Rightarrow> (sym \<times> (string \<times> string option) option) list
   \<Rightarrow> error + (sym \<times> sym \<times> string) list \<times> parse_context" where
  "act_repeatable_gsymbols context0 [] = Inr ([], context0)"
| "act_repeatable_gsymbols context0 (nodes # rest) =
     (case act_repeatable_gsymbol context0 nodes of
        Inl e \<Rightarrow> Inl e
      | Inr (r, context1) \<Rightarrow>
          (case act_repeatable_gsymbols context1 rest of
             Inl e \<Rightarrow> Inl e
           | Inr (rs, context2) \<Rightarrow> Inr (r # rs, context2)))"

text \<open>
  \<open>act_pgfile\<close>: the productions of the rules, extended by the productions of every
  entry of \<open>context.new_productions\<close>, in the dictionary's order. \<open>imports\<close> is
  \<open>None\<close> when the file has no import section (one node), and then \<open>[]\<close> is returned
  for it.
\<close>

definition act_pgfile ::
  "parse_context \<Rightarrow> 'i list option \<Rightarrow> production list \<Rightarrow> 'i list \<times> production list" where
  "act_pgfile context0 imports productions =
     ((case imports of None \<Rightarrow> [] | Some i \<Rightarrow> i),
      (case new_productions context0 of
         None \<Rightarrow> productions
       | Some np \<Rightarrow> productions @ concat (map (\<lambda>(_, (nt, prods)). prods) np)))"

text \<open>
  Three notions for stating what the desugaring does to the context: the dictionary
  \<open>context.new_productions\<close> read as empty while the attribute is missing; entries
  whose productions all have a left-hand side created between two allocation counts;
  and a context that grew out of another by appending entries under new keys.
\<close>

definition table :: "parse_context \<Rightarrow> (string \<times> sym \<times> production list) list" where
  "table c = (case new_productions c of None \<Rightarrow> [] | Some np \<Rightarrow> np)"

definition created_between ::
  "nat \<Rightarrow> nat \<Rightarrow> (string \<times> sym \<times> production list) list \<Rightarrow> bool" where
  "created_between lo hi es \<longleftrightarrow>
     (\<forall>e \<in> set es. \<forall>p \<in> set (snd (snd e)).
        \<exists>i. oid (symbol p) = Allocated i \<and> lo \<le> i \<and> i < hi)"

definition grows :: "parse_context \<Rightarrow> parse_context \<Rightarrow> bool" where
  "grows c c' \<longleftrightarrow>
     allocated c \<le> allocated c'
     \<and> (new_productions c \<noteq> None \<longrightarrow> new_productions c' \<noteq> None)
     \<and> (\<exists>added. table c' = table c @ added
           \<and> created_between (allocated c) (allocated c') added
           \<and> distinct (map fst added)
           \<and> set (map fst added) \<inter> set (map fst (table c)) = {})"

section \<open>Recognizers\<close>

text \<open>
  Python's \<open>re\<close> module is no part of the repository: it is a parameter of the model,
  with the two operations the code uses. \<open>re_compiles re regex flags\<close> says whether
  \<open>re.compile(regex, flags)\<close> succeeds; \<open>re_match re regex flags in_str pos\<close> is the
  text of \<open>regex.match(in_str, pos).group()\<close>, or \<open>None\<close> when there is no match.
\<close>

datatype re_flag = MULTILINE | IGNORECASE

record re_module =
  re_compiles :: "string \<Rightarrow> re_flag set \<Rightarrow> bool"
  re_match :: "string \<Rightarrow> re_flag set \<Rightarrow> string \<Rightarrow> nat \<Rightarrow> string option"

text \<open>
  A recognizer object: a \<open>StringRecognizer\<close> with \<open>value\<close> and \<open>ignore_case\<close>, a
  \<open>RegExRecognizer\<close> with \<open>_regex\<close>, \<open>re_flags\<close> and \<open>ignore_case\<close>, or one of the
  functions of the module (\<open>EMPTY_recognizer\<close>, \<open>EOF_recognizer\<close>,
  \<open>STOP_recognizer\<close>), whose body is \<open>pass\<close>.
\<close>

datatype recognizer =
    StringRecognizer string bool
  | RegExRecognizer string "re_flag set" bool
  | Module_function string

definition esc_control_characters :: "string \<Rightarrow> string" where
  "esc_control_characters regex =
     foldl (\<lambda>r (val, txt). replace_char val txt r) regex
       [(CHR 0x07, [CHR 0x5C, CHR ''a'']), (CHR 0x08, [CHR 0x5C, CHR ''b'']),
        (CHR 0x0C, [CHR 0x5C, CHR ''f'']), (CHR 0x0A, [CHR 0x5C, CHR ''n'']),
        (CHR 0x0D, [CHR 0x5C, CHR ''r'']), (CHR 0x09, [CHR 0x5C, CHR ''t'']),
        (CHR 0x0B, [CHR 0x5C, CHR ''v''])]"

text \<open>\<open>RegExRecognizer.__init__\<close>; a pattern that does not compile is a \<open>GrammarError\<close>.\<close>

definition RegExRecognizer_init ::
  "re_module \<Rightarrow> string \<Rightarrow> re_flag set \<Rightarrow> bool \<Rightarrow> error + recognizer" where
  "RegExRecognizer_init re regex re_flags ignore_case =
     (let re_flags' = (if ignore_case then re_flags \<union> {IGNORECASE} else re_flags)
      in if re_compiles re regex re_flags'
         then Inr (RegExRecognizer regex re_flags' ignore_case)
         else Inl (GrammarError (Regex_compile_error (esc_control_characters regex))))"

text \<open>
  Calling a recognizer. The characters of the model are the code points below 256, and
  \<open>lower\<close> is \<open>str.lower\<close> on them: the letters \<open>A\<close> to \<open>Z\<close> and the
  capital letters of the Latin-1 block (192 to 222, without the multiplication sign 215)
  go to the code point 32 higher, every other character stays.
\<close>

definition lower_char :: "char \<Rightarrow> char" where
  "lower_char c =
     (let n = (of_char c :: nat)
      in if (65 \<le> n \<and> n \<le> 90) \<or> (192 \<le> n \<and> n \<le> 222 \<and> n \<noteq> 215)
         then char_of (n + 32) else c)"

definition lower :: "string \<Rightarrow> string" where
  "lower s = map lower_char s"

definition recognizer_call :: "re_module \<Rightarrow> recognizer \<Rightarrow> string \<Rightarrow> nat \<Rightarrow> string option" where
  "recognizer_call re r in_str pos =
     (case r of
        StringRecognizer v ignore_case \<Rightarrow>
          if ignore_case then
            (if lower (take (length v) (drop pos in_str)) = lower v then Some v else None)
          else
            (if take (length v) (drop pos in_str) = v then Some v else None)
      | RegExRecognizer regex re_flags _ \<Rightarrow> re_match re regex re_flags in_str pos
      | Module_function _ \<Rightarrow> None)"

section \<open>The store of terminal attributes\<close>

text \<open>
  The attributes of symbol objects that are assigned after the object was created,
  by identity: \<open>recognizer\<close> (\<open>None\<close> is Python's \<open>None\<close>) and \<open>keyword\<close>.
  \<open>n_objects\<close> counts the objects created so far; a constructor call takes it as the
  identity of the new object.
\<close>

record store =
  recognizer_of :: "oid \<Rightarrow> recognizer option"
  keyword_of :: "oid \<Rightarrow> bool"
  n_objects :: nat

section \<open>Grammar construction\<close>

definition RESERVED_SYMBOL_NAMES :: "string list" where
  "RESERVED_SYMBOL_NAMES = [''EOF'', ''STOP'', ''EMPTY'']"

definition SPECIAL_SYMBOL_NAMES :: "string list" where
  "SPECIAL_SYMBOL_NAMES = [''KEYWORD'', ''LAYOUT'']"

text \<open>
  A \<open>Grammar\<close> object (a \<open>PGFile\<close> with more attributes). An attribute that
  \<open>__init__\<close> may leave unset is an option: \<open>start_symbol\<close>, and \<open>recognizers\<close>,
  which the docstring of \<open>PGFile\<close> lists and no code assigns. The dictionaries are
  association lists in insertion order, the two sets are lists in insertion order
  (Python leaves the iteration order of a set open; no property below depends on it).
  \<open>imports\<close> and \<open>root_file\<close> are left out: construction does not read them.
\<close>

record grammar =
  productions :: "production list"
  file_path :: string
  symbols_by_name :: "(string \<times> sym) list"
  recog_to_terminals :: "(string \<times> sym) list"
  no_check_recognizers :: bool
  start_symbol :: "sym option"
  recognizers :: "(string \<times> recognizer) list option option"
  nonterminals :: "sym list"
  terminals :: "sym list"

text \<open>
  Hashing and set membership. \<open>GrammarSymbol.__hash__\<close> returns the hash of the name
  the constructor was given (taken as collision-free: the hash is the name itself); a
  \<open>Reference\<close> has the default hash of its identity. An object is in a set when a
  member has the same hash and is identical or \<open>==\<close> to it; adding it again leaves the
  set as it is.
\<close>

definition sym_hash :: "sym \<Rightarrow> string + oid" where
  "sym_hash s = (if cls s = Reference then Inr (oid s) else Inl (init_name s))"

definition py_in :: "sym \<Rightarrow> sym list \<Rightarrow> bool" where
  "py_in x s \<longleftrightarrow> (\<exists>y \<in> set s. sym_hash y = sym_hash x \<and> py_eq y x)"

definition py_set_add :: "sym \<Rightarrow> sym list \<Rightarrow> sym list" where
  "py_set_add x s = (if py_in x s then s else s @ [x])"

definition py_set :: "sym list \<Rightarrow> sym list" where
  "py_set xs = foldl (\<lambda>s x. py_set_add x s) [] xs"

text \<open>
  \<open>_resolve_action\<close>: the check of the action names. Setting \<open>action\<close> and
  \<open>grammar_action\<close> from the module of built-in actions is not modelled (nothing below
  reads them). A \<open>Reference\<close> has no attribute \<open>action_name\<close>.
\<close>

definition resolve_action :: "sym \<Rightarrow> sym \<Rightarrow> error + unit" where
  "resolve_action old_symbol new_symbol =
     (if cls new_symbol = Reference then Inl (AttributeError ''action_name'')
      else case action_name new_symbol of
             None \<Rightarrow> Inr ()
           | Some a \<Rightarrow>
               if a = [] then Inr ()
               else if cls old_symbol = Reference then Inl (AttributeError ''action_name'')
               else if Some a \<noteq> action_name old_symbol
                    then Inl (GrammarError (Multiple_actions (name new_symbol)))
               else Inr ())"

text \<open>
  \<^verbatim>\<open>for k, v in self.recog_to_terminals.items(): if v.name == ...: del ...; break\<close>:
  the first entry whose terminal has the name is removed.
\<close>

fun del_first_named :: "string \<Rightarrow> (string \<times> sym) list \<Rightarrow> (string \<times> sym) list" where
  "del_first_named nm [] = []"
| "del_first_named nm ((k, v) # rest) =
     (if name v = nm then rest else (k, v) # del_first_named nm rest)"

text \<open>
  The loop of \<open>collect_symbols\<close> and of \<open>_collect_grammar_symbols\<close> (the same text
  in both), over the productions still to visit; the state is \<open>symbols_by_name\<close>,
  \<open>recog_to_terminals\<close> and the allocation count. \<open>collect_choice\<close> is the first
  part of the loop body, which chooses \<open>new_symbol\<close>; the rest checks the action and
  registers the symbol. \<open>p.rhs[0].name\<close> is an \<open>AttributeError\<close> should
  \<open>p.rhs[0]\<close> be \<open>None\<close>.
\<close>

definition collect_choice ::
  "production \<Rightarrow> (string \<times> sym) list \<Rightarrow> (string \<times> sym) list \<Rightarrow> nat
   \<Rightarrow> error + sym \<times> (string \<times> sym) list \<times> nat" where
  "collect_choice p sbn r2t n =
     (if cls (symbol p) = Terminal then
              (case map_of sbn (name (symbol p)) of
                 Some prev_symbol \<Rightarrow>
                   if cls prev_symbol = Terminal then
                     (let new_symbol = NonTerminal_new (Allocated n) (name (symbol p))
                      in Inr (new_symbol, del_first_named (name new_symbol) r2t, Suc n))
                   else Inr (prev_symbol, r2t, n)
               | None \<Rightarrow>
                   if ProductionRHS_len (rhs p) \<noteq> 0 then
                     (case ProductionRHS_getitem (rhs p) 0 of
                        None \<Rightarrow> Inl (AttributeError ''name'')
                      | Some r0 \<Rightarrow>
                          if name r0 \<notin> set SPECIAL_SYMBOL_NAMES then
                            (if name (symbol p) \<in> fst ` set r2t then Inl AssertionError
                             else Inr (symbol p, AList.update (name r0) (symbol p) r2t, n))
                          else Inr (symbol p, r2t, n))
                   else Inr (symbol p, r2t, n))
            else Inr (symbol p, r2t, n))"

fun collect_loop ::
  "production list \<Rightarrow> (string \<times> sym) list \<Rightarrow> (string \<times> sym) list \<Rightarrow> nat
   \<Rightarrow> error + (string \<times> sym) list \<times> (string \<times> sym) list \<times> nat" where
  "collect_loop [] sbn r2t n = Inr (sbn, r2t, n)"
| "collect_loop (p # ps) sbn r2t n =
     (case collect_choice p sbn r2t n of
        Inl e \<Rightarrow> Inl e
      | Inr (new_symbol, r2t', n') \<Rightarrow>
          (case resolve_action (symbol p) new_symbol of
             Inl e \<Rightarrow> Inl e
           | Inr _ \<Rightarrow> collect_loop ps (AList.update (name new_symbol) new_symbol sbn) r2t' n'))"

text \<open>
  \<open>PGFile.__init__\<close>: \<open>path.realpath(file_path)\<close> raises a \<open>TypeError\<close> for
  \<open>None\<close> (the canonical form of a path is not modelled: a path is kept as given),
  then \<open>collect_symbols\<close> runs. The \<open>recognizers\<close> argument is not used.
\<close>

definition PGFile_init ::
  "store \<Rightarrow> production list \<Rightarrow> string option \<Rightarrow> (string \<times> recognizer) list option
   \<Rightarrow> error + grammar \<times> store" where
  "PGFile_init st prods fpath recs =
     (case fpath of
        None \<Rightarrow> Inl TypeError
      | Some fp \<Rightarrow>
          (case collect_loop prods [] [] (n_objects st) of
             Inl e \<Rightarrow> Inl e
           | Inr (sbn, r2t, n) \<Rightarrow>
               Inr (\<lparr>productions = prods, file_path = fp, symbols_by_name = sbn,
                     recog_to_terminals = r2t, no_check_recognizers = False,
                     start_symbol = None, recognizers = None,
                     nonterminals = [], terminals = []\<rparr>,
                    st\<lparr>n_objects := n\<rparr>)))"

text \<open>
  \<open>_collect_grammar_symbols\<close>: the loop again, from empty dictionaries, then the two
  sets from the values of \<open>symbols_by_name\<close>.
\<close>

definition collect_grammar_symbols :: "grammar \<times> store \<Rightarrow> error + grammar \<times> store" where
  "collect_grammar_symbols gs =
     (case gs of (g, st) \<Rightarrow>
        (case collect_loop (productions g) [] [] (n_objects st) of
           Inl e \<Rightarrow> Inl e
         | Inr (sbn, r2t, n) \<Rightarrow>
             Inr (g\<lparr>symbols_by_name := sbn, recog_to_terminals := r2t,
                    terminals := py_set (filter (\<lambda>x. cls x = Terminal) (map snd sbn)),
                    nonterminals := py_set (filter (\<lambda>x. cls x = NonTerminal) (map snd sbn))\<rparr>,
                  st\<lparr>n_objects := n\<rparr>)))"

text \<open>
  \<open>_check_connect_recognizers\<close>, over the terminals still to visit. Reading
  \<open>self.recognizers\<close> raises an \<open>AttributeError\<close> while the attribute does not
  exist; \<open>term.name not in None\<close> is a \<open>TypeError\<close>.
\<close>

fun check_connect_loop ::
  "(string \<times> recognizer) list option option \<Rightarrow> sym list \<Rightarrow> store \<Rightarrow> error + store" where
  "check_connect_loop recs [] st = Inr st"
| "check_connect_loop recs (term # rest) st =
     (case recs of
        None \<Rightarrow> Inl (AttributeError ''recognizers'')
      | Some d \<Rightarrow>
          if (d = None \<or> d = Some []) \<and> recognizer_of st (oid term) = None then
            Inl (GrammarError (No_recognizer_and_none_given (name term)))
          else
            (case d of
               None \<Rightarrow> Inl TypeError
             | Some dict \<Rightarrow>
                 (case map_of dict (name term) of
                    None \<Rightarrow>
                      if recognizer_of st (oid term) = None
                      then Inl (GrammarError (No_recognizer (name term)))
                      else check_connect_loop recs rest st
                  | Some r \<Rightarrow>
                      check_connect_loop recs rest
                        (st\<lparr>recognizer_of := (recognizer_of st)(oid term := Some r)\<rparr>))))"

definition check_connect_recognizers :: "grammar \<times> store \<Rightarrow> error + grammar \<times> store" where
  "check_connect_recognizers gs =
     (case gs of (g, st) \<Rightarrow>
        (case check_connect_loop (recognizers g) (terminals g) st of
           Inl e \<Rightarrow> Inl e
         | Inr st' \<Rightarrow> Inr (g, st')))"

text \<open>
  \<open>_resolve_references\<close>. The inner loop runs over the places of one right-hand side
  and returns the new right-hand side; its state is the local dictionary
  \<open>rec_to_term\<close> and the set \<open>self.terminals\<close>. \<open>resolve_choice\<close> is the body of
  the inner loop up to the assignment of \<open>ref_sym\<close> to its place. \<open>p.symbol.productions.append(p)\<close>
  is not modelled (the model has no \<open>productions\<close> attribute of a non-terminal). The
  test \<^verbatim>\<open>if not ref_sym\<close> cannot succeed: a symbol object is true.
\<close>

definition resolve_choice ::
  "(string \<times> sym) list \<Rightarrow> (string \<times> sym) list \<Rightarrow> sym \<Rightarrow> sym
   \<Rightarrow> (string \<times> sym) list \<Rightarrow> sym list
   \<Rightarrow> error + sym \<times> (string \<times> sym) list \<times> sym list" where
  "resolve_choice sbn r2t psym ref rec_to_term terms =
     (case map_of sbn (name ref) of
              Some s \<Rightarrow> Inr (s, rec_to_term, terms)
            | None \<Rightarrow>
                (case (if cls psym = NonTerminal then map_of r2t (name ref) else None) of
                   Some term_by_rec \<Rightarrow>
                     Inl (GrammarError
                            (Terminal_already_exists (name ref) (name psym) (name term_by_rec)))
                 | None \<Rightarrow>
                     if cls ref \<noteq> Terminal then
                       Inl (GrammarError (Unknown_symbol (name ref) (name psym)))
                     else
                       (case map_of rec_to_term (name ref) of
                          Some s \<Rightarrow> Inr (s, rec_to_term, terms)
                        | None \<Rightarrow>
                            Inr (ref, AList.update (name ref) ref rec_to_term,
                                 py_set_add ref terms))))"

fun resolve_rhs ::
  "(string \<times> sym) list \<Rightarrow> (string \<times> sym) list \<Rightarrow> sym \<Rightarrow> sym list
   \<Rightarrow> (string \<times> sym) list \<Rightarrow> sym list
   \<Rightarrow> error + sym list \<times> (string \<times> sym) list \<times> sym list" where
  "resolve_rhs sbn r2t psym [] rec_to_term terms = Inr ([], rec_to_term, terms)"
| "resolve_rhs sbn r2t psym (ref # refs) rec_to_term terms =
     (case resolve_choice sbn r2t psym ref rec_to_term terms of
        Inl e \<Rightarrow> Inl e
      | Inr (ref_sym, rec_to_term', terms') \<Rightarrow>
          (case resolve_rhs sbn r2t psym refs rec_to_term' terms' of
             Inl e \<Rightarrow> Inl e
           | Inr (rest, rec_to_term'', terms'') \<Rightarrow> Inr (ref_sym # rest, rec_to_term'', terms'')))"

fun resolve_loop ::
  "(string \<times> sym) list \<Rightarrow> (string \<times> sym) list \<Rightarrow> production list
   \<Rightarrow> (string \<times> sym) list \<Rightarrow> sym list
   \<Rightarrow> error + production list \<times> (string \<times> sym) list \<times> sym list" where
  "resolve_loop sbn r2t [] rec_to_term terms = Inr ([], rec_to_term, terms)"
| "resolve_loop sbn r2t (p # ps) rec_to_term terms =
     (let psym = (case map_of sbn (name (symbol p)) of Some s \<Rightarrow> s | None \<Rightarrow> symbol p)
      in case resolve_rhs sbn r2t psym (rhs p) rec_to_term terms of
           Inl e \<Rightarrow> Inl e
         | Inr (rhs', rec_to_term', terms') \<Rightarrow>
             (case resolve_loop sbn r2t ps rec_to_term' terms' of
                Inl e \<Rightarrow> Inl e
              | Inr (ps', rec_to_term'', terms'') \<Rightarrow>
                  Inr (p\<lparr>symbol := psym, rhs := rhs'\<rparr> # ps', rec_to_term'', terms'')))"

definition resolve_references :: "grammar \<times> store \<Rightarrow> error + grammar \<times> store" where
  "resolve_references gs =
     (case gs of (g, st) \<Rightarrow>
        (case resolve_loop (symbols_by_name g) (recog_to_terminals g) (productions g) []
                (terminals g) of
           Inl e \<Rightarrow> Inl e
         | Inr (ps, rec_to_term, terms) \<Rightarrow> Inr (g\<lparr>productions := ps, terminals := terms\<rparr>, st)))"

text \<open>
  \<open>_enumerate_productions\<close>. \<open>idx_per_symbol\<close> is a dictionary with symbols as
  keys: a key is found by hash and \<open>==\<close>, and an assignment to a key that is found
  keeps the key object of the entry.
\<close>

fun py_dict_get :: "(sym \<times> nat) list \<Rightarrow> sym \<Rightarrow> nat \<Rightarrow> nat" where
  "py_dict_get [] k dflt = dflt"
| "py_dict_get ((k', v) # d) k dflt =
     (if sym_hash k' = sym_hash k \<and> py_eq k' k then v else py_dict_get d k dflt)"

fun py_dict_set :: "(sym \<times> nat) list \<Rightarrow> sym \<Rightarrow> nat \<Rightarrow> (sym \<times> nat) list" where
  "py_dict_set [] k v = [(k, v)]"
| "py_dict_set ((k', v') # d) k v =
     (if sym_hash k' = sym_hash k \<and> py_eq k' k then (k', v) # d
      else (k', v') # py_dict_set d k v)"

fun enumerate_loop :: "nat \<Rightarrow> (sym \<times> nat) list \<Rightarrow> production list \<Rightarrow> production list" where
  "enumerate_loop idx idx_per_symbol [] = []"
| "enumerate_loop idx idx_per_symbol (s # rest) =
     s\<lparr>prod_id := Some idx, prod_symbol_id := Some (py_dict_get idx_per_symbol (symbol s) 0)\<rparr>
     # enumerate_loop (Suc idx)
         (py_dict_set idx_per_symbol (symbol s) (py_dict_get idx_per_symbol (symbol s) 0 + 1))
         rest"

definition enumerate_productions :: "grammar \<Rightarrow> grammar" where
  "enumerate_productions g = g\<lparr>productions := enumerate_loop 0 [] (productions g)\<rparr>"

text \<open>\<open>get_terminal\<close>: the first terminal of the set with the name, else \<open>None\<close>.\<close>

definition get_terminal :: "grammar \<Rightarrow> string \<Rightarrow> sym option" where
  "get_terminal g nm = find (\<lambda>t. name t = nm) (terminals g)"

text \<open>
  \<open>_fix_keyword_terminals\<close>. The loop runs over the terminals still to visit, with
  the recognizer of the \<open>KEYWORD\<close> terminal read before the loop. The new pattern is
  \<^verbatim>\<open>r'\b{}\b'.format(match)\<close>; the new recognizer takes the default flags
  \<open>re.MULTILINE\<close>.
\<close>

fun fix_keyword_loop :: "re_module \<Rightarrow> recognizer \<Rightarrow> sym list \<Rightarrow> store \<Rightarrow> error + store" where
  "fix_keyword_loop re keyword_rec [] st = Inr st"
| "fix_keyword_loop re keyword_rec (term # rest) st =
     (case recognizer_of st (oid term) of
        Some (StringRecognizer v ignore_case) \<Rightarrow>
          (case recognizer_call re keyword_rec v 0 of
             None \<Rightarrow> fix_keyword_loop re keyword_rec rest st
           | Some match \<Rightarrow>
               if match = v then
                 (case RegExRecognizer_init re
                         ([CHR 0x5C, CHR ''b''] @ match @ [CHR 0x5C, CHR ''b''])
                         {MULTILINE} ignore_case of
                    Inl e \<Rightarrow> Inl e
                  | Inr r \<Rightarrow>
                      fix_keyword_loop re keyword_rec rest
                        (st\<lparr>recognizer_of := (recognizer_of st)(oid term := Some r),
                            keyword_of := (keyword_of st)(oid term := True)\<rparr>))
               else fix_keyword_loop re keyword_rec rest st)
      | _ \<Rightarrow> fix_keyword_loop re keyword_rec rest st)"

definition fix_keyword_terminals :: "re_module \<Rightarrow> grammar \<times> store \<Rightarrow> error + grammar \<times> store" where
  "fix_keyword_terminals re gs =
     (case gs of (g, st) \<Rightarrow>
        (case get_terminal g ''KEYWORD'' of
           None \<Rightarrow> Inr (g, st)
         | Some keyword_term \<Rightarrow>
             (case recognizer_of st (oid keyword_term) of
                Some (RegExRecognizer regex fl ic) \<Rightarrow>
                  (case fix_keyword_loop re (RegExRecognizer regex fl ic) (terminals g) st of
                     Inl e \<Rightarrow> Inl e
                   | Inr st' \<Rightarrow> Inr (g, st'))
              | _ \<Rightarrow> Inl (GrammarError Keyword_not_regex))))"

text \<open>
  \<open>_init_grammar\<close>. Reading \<open>self.start_symbol\<close> raises an \<open>AttributeError\<close> when
  \<open>__init__\<close> has not set it.
\<close>

definition prune_terminal_productions :: "grammar \<Rightarrow> grammar" where
  "prune_terminal_productions g =
     (let non_term_productions =
            filter (\<lambda>p. cls (symbol p) = NonTerminal \<or> name (symbol p) = ''LAYOUT'')
              (productions g)
      in if length non_term_productions > 1 then g\<lparr>productions := non_term_productions\<rparr>
         else g)"

definition add_special_terminals :: "grammar \<Rightarrow> grammar" where
  "add_special_terminals g =
     g\<lparr>symbols_by_name :=
         AList.update ''STOP'' STOP
           (AList.update ''EOF'' EOF (AList.update ''EMPTY'' EMPTY (symbols_by_name g))),
       terminals := py_set_add STOP (py_set_add EOF (py_set_add EMPTY (terminals g)))\<rparr>"

definition init_grammar :: "re_module \<Rightarrow> grammar \<times> store \<Rightarrow> error + grammar \<times> store" where
  "init_grammar re gs =
     (case gs of (g0, st0) \<Rightarrow>
        (case start_symbol g0 of
           None \<Rightarrow> Inl (AttributeError ''start_symbol'')
         | Some start \<Rightarrow>
             (let g1 = g0\<lparr>nonterminals := [], terminals := [],
                          productions := Production_new AUGSYMBOL [start, STOP] # productions g0\<rparr>
              in case collect_grammar_symbols (g1, st0) of
                   Inl e \<Rightarrow> Inl e
                 | Inr (g2, st2) \<Rightarrow>
                     (case (if \<not> no_check_recognizers g2
                            then check_connect_recognizers (add_special_terminals g2, st2)
                            else Inr (add_special_terminals g2, st2)) of
                        Inl e \<Rightarrow> Inl e
                      | Inr gs3 \<Rightarrow>
                          (case resolve_references gs3 of
                             Inl e \<Rightarrow> Inl e
                           | Inr (g4, st4) \<Rightarrow>
                               fix_keyword_terminals re
                                 (enumerate_productions (prune_terminal_productions g4), st4))))))"

text \<open>
  \<open>Grammar.__init__\<close>. The \<open>start_symbol\<close> argument is \<open>None\<close>, a name or a symbol
  object; \<^verbatim>\<open>if start_symbol\<close> is false for \<open>None\<close> and for the empty string. The
  loop over the productions has no \<open>break\<close>: the last production with the name
  wins, and with no such production the attribute stays unset. The arguments
  \<open>imports\<close>, \<open>re_flags\<close>, \<open>ignore_case\<close> and the debug flags are not read by the
  constructor and are left out.
\<close>

datatype start_arg = Start_None | Start_name string | Start_symbol sym

definition determine_start_symbol :: "production list \<Rightarrow> start_arg \<Rightarrow> error + sym option" where
  "determine_start_symbol prods start =
     (case start of
        Start_symbol s \<Rightarrow> Inr (Some s)
      | Start_name nm \<Rightarrow>
          if nm \<noteq> [] then
            Inr (foldl (\<lambda>found p. if name (symbol p) = nm then Some (symbol p) else found)
                   None prods)
          else (case prods of [] \<Rightarrow> Inl IndexError | p # _ \<Rightarrow> Inr (Some (symbol p)))
      | Start_None \<Rightarrow> (case prods of [] \<Rightarrow> Inl IndexError | p # _ \<Rightarrow> Inr (Some (symbol p))))"

definition Grammar_init ::
  "re_module \<Rightarrow> store \<Rightarrow> production list \<Rightarrow> string option
   \<Rightarrow> (string \<times> recognizer) list option \<Rightarrow> start_arg \<Rightarrow> bool
   \<Rightarrow> error + grammar \<times> store" where
  "Grammar_init re st prods fpath recs start no_check =
     (case PGFile_init st prods fpath recs of
        Inl e \<Rightarrow> Inl e
      | Inr (g, st1) \<Rightarrow>
          (case determine_start_symbol (productions g) start of
             Inl e \<Rightarrow> Inl e
           | Inr s \<Rightarrow>
               init_grammar re (g\<lparr>no_check_recognizers := no_check, start_symbol := s\<rparr>, st1)))"

text \<open>
  Names for the parts of \<open>make_repetition\<close>: the generated name, the new
  non-terminal, and the productions that the callable of \<open>make_one_or_more\<close> returns.
\<close>

definition rep_key :: "sym \<Rightarrow> string \<Rightarrow> sym option \<Rightarrow> string" where
  "rep_key g suffix sep =
     (case sep of None \<Rightarrow> name g @ suffix | Some s \<Rightarrow> name g @ suffix @ ''_'' @ name s)"

definition rep_nt :: "nat \<Rightarrow> string \<Rightarrow> action \<Rightarrow> sym" where
  "rep_nt n k act = (case act of
       Action_text a \<Rightarrow> (NonTerminal_new (Allocated n) k)\<lparr>action_name := Some a\<rparr>
     | Action_callable \<Rightarrow> NonTerminal_new (Allocated n) k)"

definition one_or_more_prods :: "sym \<Rightarrow> sym \<Rightarrow> sym option \<Rightarrow> production list" where
  "one_or_more_prods new_nt g sep =
     (case sep of Some s \<Rightarrow> [Production_new new_nt [new_nt, s, g]]
                | None \<Rightarrow> [Production_new new_nt [new_nt, g]]) @ [Production_new new_nt [g]]"

text \<open>
  Names for stages of \<open>_init_grammar\<close>: \<open>symbols_by_name\<close> with the entries of
  the special terminals, the set \<open>terminals\<close> before references are resolved, and the
  production list after the terminal productions are removed. Then the inputs of the
  examples: a \<open>re\<close> module that compiles everything and matches nothing, the store
  as the module leaves it (the recognizers of the three special terminals), a store
  where the terminal \<open>a\<close> has a string recognizer, and the symbols \<open>S\<close> and \<open>a\<close>.
\<close>

definition with_specials :: "(string \<times> sym) list \<Rightarrow> (string \<times> sym) list" where
  "with_specials sbn =
     AList.update ''STOP'' STOP (AList.update ''EOF'' EOF (AList.update ''EMPTY'' EMPTY sbn))"

definition initial_terminals :: "(string \<times> sym) list \<Rightarrow> sym list" where
  "initial_terminals sbn =
     py_set_add STOP (py_set_add EOF (py_set_add EMPTY
       (py_set (filter (\<lambda>x. cls x = Terminal) (map snd sbn)))))"

definition pruned :: "production list \<Rightarrow> production list" where
  "pruned ps =
     (if length (filter (\<lambda>p. cls (symbol p) = NonTerminal \<or> name (symbol p) = ''LAYOUT'') ps) > 1
      then filter (\<lambda>p. cls (symbol p) = NonTerminal \<or> name (symbol p) = ''LAYOUT'') ps else ps)"

definition no_re :: re_module where
  "no_re = \<lparr>re_compiles = (\<lambda>regex flags. True), re_match = (\<lambda>regex flags in_str pos. None)\<rparr>"

definition module_store :: store where
  "module_store =
     \<lparr>recognizer_of =
        (\<lambda>i. if i = oid STOP then Some (Module_function ''STOP_recognizer'')
             else if i = oid EMPTY then Some (Module_function ''EMPTY_recognizer'')
             else if i = oid EOF then Some (Module_function ''EOF_recognizer'')
             else None),
      keyword_of = (\<lambda>i. False), n_objects = 0\<rparr>"

definition string_store :: store where
  "string_store =
     module_store\<lparr>recognizer_of :=
                    (recognizer_of module_store)(Allocated 1 := Some (StringRecognizer ''a'' False)),
                  n_objects := 2\<rparr>"

definition S_sym :: sym where "S_sym = NonTerminal_new (Allocated 0) ''S''"
definition a_sym :: sym where "a_sym = Terminal_new (Allocated 1) ''a''"

text \<open>
  Notions for the invariants of the two passes. A dictionary is \<open>keyed\<close> when every
  entry stands under the name of its symbol and no entry is a \<open>Reference\<close>. A symbol
  is \<open>unified\<close> when it is the one registered under its name in
  \<open>symbols_by_name\<close>, or a terminal used inline, with no entry of its name there, that
  is the one kept under its name in \<open>rec_to_term\<close>; \<open>res_inv\<close> is the invariant
  of the resolution loop.
\<close>

definition keyed :: "(string \<times> sym) list \<Rightarrow> bool" where
  "keyed al \<longleftrightarrow> (\<forall>e \<in> set al. name (snd e) = fst e \<and> cls (snd e) \<noteq> Reference)"

definition unified :: "(string \<times> sym) list \<Rightarrow> (string \<times> sym) list \<Rightarrow> sym \<Rightarrow> bool" where
  "unified sbn rtt x \<longleftrightarrow>
     map_of sbn (name x) = Some x
     \<or> (map_of sbn (name x) = None \<and> map_of rtt (name x) = Some x \<and> cls x = Terminal)"

definition res_inv :: "(string \<times> sym) list \<Rightarrow> (string \<times> sym) list \<Rightarrow> sym list \<Rightarrow> bool" where
  "res_inv sbn rtt terms \<longleftrightarrow>
     keyed rtt
     \<and> (\<forall>e \<in> set rtt. map_of sbn (fst e) = None \<and> cls (snd e) = Terminal \<and> snd e \<in> set terms)
     \<and> (\<forall>t \<in> set terms. unified sbn rtt t)"

text \<open>
  The symbol instances of a constructed grammar: the left-hand and right-hand side
  symbols of its productions and the members of its two sets.
\<close>

definition grammar_symbols :: "grammar \<Rightarrow> sym set" where
  "grammar_symbols g =
     symbol ` set (productions g) \<union> (\<Union>p \<in> set (productions g). set (rhs p))
     \<union> set (terminals g) \<union> set (nonterminals g)"

text \<open>
  For the keyword pass: the pattern \<^verbatim>\<open>\b<literal>\b\<close> and the flags
  \<open>RegExRecognizer.__init__\<close> ends with, from the default \<open>re.MULTILINE\<close>. Then
  the example of the specification: the pattern of \<open>KEYWORD\<close>, the grammar
  \<^verbatim>\<open>S: "if"; KEYWORD: /[a-zA-Z_][a-zA-Z0-9_]*/;\<close> with its store, and what Python's
  \<open>re\<close> answers at the calls the example makes: every pattern compiles, the
  \<open>KEYWORD\<close> pattern matches \<open>if\<close> in \<open>if\<close> at 0, and no other call matches (in
  particular not \<^verbatim>\<open>\bif\b\<close> in \<open>ifx\<close> at 0).
\<close>

definition word_boundary_pattern :: "string \<Rightarrow> string" where
  "word_boundary_pattern v = [CHR 0x5C, CHR ''b''] @ v @ [CHR 0x5C, CHR ''b'']"

definition keyword_flags :: "bool \<Rightarrow> re_flag set" where
  "keyword_flags ic = (if ic then {MULTILINE, IGNORECASE} else {MULTILINE})"

definition KEYWORD_pattern :: string where
  "KEYWORD_pattern = ''[a-zA-Z_][a-zA-Z0-9_]*''"

definition example_re :: re_module where
  "example_re =
     \<lparr>re_compiles = (\<lambda>regex flags. True),
      re_match = (\<lambda>regex flags in_str pos.
         if regex = KEYWORD_pattern \<and> in_str = ''if'' \<and> pos = 0 then Some ''if'' else None)\<rparr>"

definition if_sym :: sym where "if_sym = Terminal_new (Allocated 3) ''if''"

definition KEYWORD_sym :: sym where "KEYWORD_sym = Terminal_new (Allocated 1) ''KEYWORD''"

definition KEYWORD_body :: sym where "KEYWORD_body = Terminal_new (Allocated 2) KEYWORD_pattern"

definition keyword_store :: store where
  "keyword_store =
     module_store\<lparr>recognizer_of :=
        (recognizer_of module_store)
          (Allocated 1 := Some (RegExRecognizer KEYWORD_pattern {MULTILINE} False),
           Allocated 2 := Some (RegExRecognizer KEYWORD_pattern {MULTILINE} False),
           Allocated 3 := Some (StringRecognizer ''if'' False)),
       n_objects := 4\<rparr>"

definition keyword_grammar :: "production list" where
  "keyword_grammar =
     [Production_new S_sym [if_sym], Production_new KEYWORD_sym [KEYWORD_body]]"

section \<open>Properties of ProductionRHS\<close>

lemma ProductionRHS_getitem_beyond:
  "int (length xs) \<le> idx \<Longrightarrow> ProductionRHS_getitem xs idx = None"
  by (subst ProductionRHS_getitem.simps) (simp add: list_getitem_def)

lemma ProductionRHS_len_no_EMPTY:
  "\<forall>x \<in> set xs. \<not> py_eq x EMPTY \<Longrightarrow> ProductionRHS_len xs = length xs"
  by (simp add: ProductionRHS_len_def)

lemma ProductionRHS_len_filter:
  "ProductionRHS_len xs = length (filter (\<lambda>x. \<not> py_eq x EMPTY) xs)"
  unfolding ProductionRHS_len_def
  using sum_length_filter_compl[of "\<lambda>x. py_eq x EMPTY" xs] by simp

text \<open>
  C3. Length and indexing of a \<open>ProductionRHS\<close> should behave as if the \<open>EMPTY\<close>
  elements were absent. On the backing list \<open>[EMPTY, a, b]\<close> the length is 2, as it
  should be, yet indexing at 1 yields \<open>a\<close> again (the element at backing position 1),
  not \<open>b\<close>, the second element that is not \<open>EMPTY\<close>: \<open>__getitem__\<close> skips the
  \<open>EMPTY\<close> elements from position \<open>idx\<close> on and ignores those before it.
\<close>

theorem ProductionRHS_index_after_EMPTY:
  "ProductionRHS_len [EMPTY, Terminal_new (Allocated 0) ''a'', Terminal_new (Allocated 1) ''b''] = 2
   \<and> ProductionRHS_getitem [EMPTY, Terminal_new (Allocated 0) ''a'', Terminal_new (Allocated 1) ''b''] 1
       = Some (Terminal_new (Allocated 0) ''a'')
   \<and> non_EMPTY [EMPTY, Terminal_new (Allocated 0) ''a'', Terminal_new (Allocated 1) ''b''] ! 1 = Terminal_new (Allocated 1) ''b''
   \<and> Terminal_new (Allocated 0) ''a'' \<noteq> Terminal_new (Allocated 1) ''b''"
  by (simp add: ProductionRHS_len_def ProductionRHS_getitem.simps list_getitem_def non_EMPTY_def
      py_eq_def name_def escape_def replace_char_def EMPTY_def Terminal_new_def)

text \<open>
  C10. Indexing at a position at or beyond the filtered length should return \<open>None\<close>.
  The backing list \<open>[EMPTY, a]\<close> has filtered length 1, and indexing at 1 returns
  \<open>a\<close>.
\<close>

theorem ProductionRHS_index_at_len_not_None:
  "ProductionRHS_len [EMPTY, Terminal_new (Allocated 0) ''a''] = 1
   \<and> ProductionRHS_getitem [EMPTY, Terminal_new (Allocated 0) ''a''] 1 = Some (Terminal_new (Allocated 0) ''a'')"
  by (simp add: ProductionRHS_len_def ProductionRHS_getitem.simps list_getitem_def
      py_eq_def name_def escape_def replace_char_def EMPTY_def Terminal_new_def)

section \<open>Properties of the repetition desugaring\<close>

lemma replace_char_append: "replace_char c r (a @ b) = replace_char c r a @ replace_char c r b"
  by (simp add: replace_char_def)

lemma escape_append: "escape (a @ b) = escape a @ escape b"
  by (simp add: escape_def replace_char_append)

lemma update_absent: "map_of al k = None \<Longrightarrow> AList.update k v al = al @ [(k, v)]"
  by (induction al) (auto split: if_splits)

lemma name_NonTerminal_new [simp]: "name (NonTerminal_new i nm) = escape nm"
  by (simp add: name_def NonTerminal_new_def)

lemma escape_suffix_1: "escape (x @ ''_1'') = escape x @ ''_1''"
  by (simp add: escape_append) (simp add: escape_def replace_char_def)

lemma escape_suffix_0: "escape (x @ ''_0'') = escape x @ ''_0''"
  by (simp add: escape_append) (simp add: escape_def replace_char_def)

lemma name_EMPTY: "name EMPTY = ''EMPTY''"
  by (simp add: EMPTY_def name_def Terminal_new_def escape_def replace_char_def)

lemma aux_not_EMPTY_1: "\<not> py_eq ((NonTerminal_new (Allocated k) (x @ ''_1''))\<lparr>action_name := a\<rparr>) EMPTY"
proof -
  have "last (escape x @ ''_1'') \<noteq> last ''EMPTY''" by simp
  then have "escape x @ ''_1'' \<noteq> ''EMPTY''" by metis
  then have "name ((NonTerminal_new (Allocated k) (x @ ''_1''))\<lparr>action_name := a\<rparr>) \<noteq> name EMPTY"
    by (simp add: name_EMPTY) (simp add: name_def NonTerminal_new_def escape_suffix_1)
  then show ?thesis
    by (simp add: py_eq_def) (simp add: NonTerminal_new_def EMPTY_def Terminal_new_def)
qed

lemma grows_refl: "grows c c"
  by (simp add: grows_def created_between_def)

lemma created_between_mono:
  "created_between lo hi es \<Longrightarrow> lo' \<le> lo \<Longrightarrow> hi \<le> hi' \<Longrightarrow> created_between lo' hi' es"
  unfolding created_between_def by (meson le_trans less_le_trans)

lemma created_between_append:
  "created_between lo hi (a @ b) \<longleftrightarrow> created_between lo hi a \<and> created_between lo hi b"
  unfolding created_between_def by auto

lemma grows_trans:
  assumes "grows c c'" and "grows c' c''"
  shows "grows c c''"
proof -
  from assms(1) obtain a1 where a1: "table c' = table c @ a1"
    "created_between (allocated c) (allocated c') a1" "distinct (map fst a1)"
    "set (map fst a1) \<inter> set (map fst (table c)) = {}"
    and l1: "allocated c \<le> allocated c'" "new_productions c \<noteq> None \<longrightarrow> new_productions c' \<noteq> None"
    unfolding grows_def by blast
  from assms(2) obtain a2 where a2: "table c'' = table c' @ a2"
    "created_between (allocated c') (allocated c'') a2" "distinct (map fst a2)"
    "set (map fst a2) \<inter> set (map fst (table c')) = {}"
    and l2: "allocated c' \<le> allocated c''" "new_productions c' \<noteq> None \<longrightarrow> new_productions c'' \<noteq> None"
    unfolding grows_def by blast
  have t: "table c'' = table c @ (a1 @ a2)" using a1(1) a2(1) by simp
  have cb: "created_between (allocated c) (allocated c'') (a1 @ a2)"
    using created_between_mono[OF a1(2) le_refl l2(1)] created_between_mono[OF a2(2) l1(1) le_refl]
    by (simp add: created_between_append)
  have d: "distinct (map fst (a1 @ a2))"
    using a1(3) a2(3) a2(4) a1(1) by auto
  have i: "set (map fst (a1 @ a2)) \<inter> set (map fst (table c)) = {}"
    using a1(4) a2(4) a1(1) by auto
  show ?thesis
    unfolding grows_def
  proof (intro conjI exI[of _ "a1 @ a2"])
    show "allocated c \<le> allocated c''" using l1(1) l2(1) by simp
    show "new_productions c \<noteq> None \<longrightarrow> new_productions c'' \<noteq> None" using l1(2) l2(2) by simp
  qed (use t cb d i in simp_all)
qed

lemma table_set [simp]: "table (c\<lparr>new_productions := Some np\<rparr>) = np"
  by (simp add: table_def)

lemma table_alloc [simp]: "table (c\<lparr>allocated := n\<rparr>) = table c"
  by (simp add: table_def)

lemma make_repetition_unfold:
  "make_repetition c0 g sep suffix act pc =
     (case map_of (table c0) (rep_key g suffix sep) of
        Some e \<Rightarrow> Inr (fst e, c0\<lparr>new_productions := Some (table c0)\<rparr>)
      | None \<Rightarrow>
          (case pc (c0\<lparr>new_productions := Some (table c0), allocated := Suc (allocated c0)\<rparr>)
                   (rep_nt (allocated c0) (rep_key g suffix sep) act) of
             Inl e \<Rightarrow> Inl e
           | Inr r \<Rightarrow>
              (case new_productions (snd r) of
                 None \<Rightarrow> Inl (AttributeError ''new_productions'')
               | Some np3 \<Rightarrow>
                   Inr (rep_nt (allocated c0) (rep_key g suffix sep) act,
                        (snd r)\<lparr>new_productions :=
                           Some (AList.update (rep_key g suffix sep)
                                  (rep_nt (allocated c0) (rep_key g suffix sep) act, fst r) np3)\<rparr>))))"
proof -
  have c1: "(case new_productions c0 of None \<Rightarrow> c0\<lparr>new_productions := Some []\<rparr> | Some x \<Rightarrow> c0)
            = c0\<lparr>new_productions := Some (table c0)\<rparr>"
    by (cases "new_productions c0") (simp_all add: table_def)
  have k: "(case sep of None \<Rightarrow> name g @ suffix | Some s \<Rightarrow> name g @ suffix @ ''_'' @ name s)
            = rep_key g suffix sep"
    by (simp add: rep_key_def)
  have nt: "\<And>n k. (case act of Action_text a \<Rightarrow> (NonTerminal_new (Allocated n) k)\<lparr>action_name := Some a\<rparr>
                      | Action_callable \<Rightarrow> NonTerminal_new (Allocated n) k) = rep_nt n k act"
    by (simp add: rep_nt_def)
  show ?thesis
    unfolding make_repetition_def Let_def c1 k nt
    by (simp split: sum.splits prod.splits option.splits)
qed

lemma oid_rep_nt [simp]: "oid (rep_nt n k act) = Allocated n"
  by (cases act) (simp_all add: rep_nt_def NonTerminal_new_def)

lemma grows_init: "grows c0 (c0\<lparr>new_productions := Some (table c0)\<rparr>)"
  by (simp add: grows_def created_between_def)

lemma make_repetition_grows:
  assumes pc: "\<And>c nt ps c'. prod_callable c nt = Inr (ps, c') \<Longrightarrow>
                 grows c c' \<and> (\<forall>p \<in> set ps. symbol p = nt)
                 \<and> (map_of (table c) (rep_key g suffix sep) = None
                      \<longrightarrow> map_of (table c') (rep_key g suffix sep) = None)"
    and r: "make_repetition c0 g sep suffix act prod_callable = Inr (nt, c')"
  shows "grows c0 c' \<and> new_productions c' \<noteq> None"
proof -
  let ?k = "rep_key g suffix sep"
  let ?nt = "rep_nt (allocated c0) ?k act"
  let ?c2 = "c0\<lparr>new_productions := Some (table c0), allocated := Suc (allocated c0)\<rparr>"
  show ?thesis
  proof (cases "map_of (table c0) ?k")
    case (Some e)
    then have "c' = c0\<lparr>new_productions := Some (table c0)\<rparr>" using r
      by (simp add: make_repetition_unfold)
    then show ?thesis using grows_init by simp
  next
    case None
    from r None obtain ps c3 where pcr: "prod_callable ?c2 ?nt = Inr (ps, c3)"
      by (cases "prod_callable ?c2 ?nt") (auto simp: make_repetition_unfold)
    from r None pcr obtain np3 where np3: "new_productions c3 = Some np3"
      by (cases "new_productions c3") (auto simp: make_repetition_unfold)
    from r None pcr np3 have c': "c' = c3\<lparr>new_productions := Some (AList.update ?k (?nt, ps) np3)\<rparr>"
      by (auto simp: make_repetition_unfold)
    from pc[OF pcr] have g23: "grows ?c2 c3" and lhs: "\<forall>p \<in> set ps. symbol p = ?nt"
      and keep: "map_of (table ?c2) ?k = None \<longrightarrow> map_of (table c3) ?k = None" by blast+
    have "map_of (table ?c2) ?k = None" using None by simp
    with keep have k3: "map_of np3 ?k = None" using np3 by (simp add: table_def)
    from g23 obtain added where ad: "table c3 = table ?c2 @ added"
      "created_between (allocated ?c2) (allocated c3) added" "distinct (map fst added)"
      "set (map fst added) \<inter> set (map fst (table ?c2)) = {}" and l3: "allocated ?c2 \<le> allocated c3"
      unfolding grows_def by blast
    have ad1: "np3 = table c0 @ added" using ad(1) np3 by (simp add: table_def)
    have l3': "Suc (allocated c0) \<le> allocated c3" using l3 by simp
    have tc': "table c' = table c0 @ (added @ [(?k, ?nt, ps)])"
      using c' ad1 k3 by (simp add: update_absent)
    have knew: "?k \<notin> set (map fst added)" "?k \<notin> set (map fst (table c0))"
      using k3 ad1 by (auto simp: map_of_eq_None_iff)
    have cb1: "created_between (allocated c0) (allocated c3) added"
      using created_between_mono[OF ad(2), of "allocated c0" "allocated c3"] by simp
    have cb2: "created_between (allocated c0) (allocated c3) [(?k, ?nt, ps)]"
      using lhs l3' by (auto simp: created_between_def)
    have al: "allocated c' = allocated c3" using c' by simp
    have "grows c0 c'"
      unfolding grows_def al
    proof (intro conjI exI[of _ "added @ [(?k, ?nt, ps)]"])
      show "allocated c0 \<le> allocated c3" using l3' by simp
      show "new_productions c0 \<noteq> None \<longrightarrow> new_productions c' \<noteq> None" using c' by simp
      show "table c' = table c0 @ added @ [(?k, ?nt, ps)]" using tc' .
      show "created_between (allocated c0) (allocated c3) (added @ [(?k, ?nt, ps)])"
        using cb1 cb2 by (simp add: created_between_append)
      show "distinct (map fst (added @ [(?k, ?nt, ps)]))" using ad(3) knew(1) by simp
      show "set (map fst (added @ [(?k, ?nt, ps)])) \<inter> set (map fst (table c0)) = {}"
        using ad(4) knew(2) by simp
    qed
    then show ?thesis using c' by simp
  qed
qed

lemma make_one_or_more_grows:
  "make_one_or_more c g sep = Inr (nt, c') \<Longrightarrow> grows c c' \<and> new_productions c' \<noteq> None"
  unfolding make_one_or_more_def
  by (erule make_repetition_grows[rotated])
     (auto simp: grows_refl Production_new_def Production_init_def split: option.splits)

lemma make_optional_grows:
  "make_optional c g sep = Inr (nt, c') \<Longrightarrow> grows c c' \<and> new_productions c' \<noteq> None"
  unfolding make_optional_def
  by (erule make_repetition_grows[rotated])
     (auto simp: grows_refl Production_new_def Production_init_def split: option.splits if_splits)

lemma make_one_or_more_unfold:
  "make_one_or_more c g sep =
     (case map_of (table c) (rep_key g ''_1'' sep) of
        Some e \<Rightarrow> Inr (fst e, c\<lparr>new_productions := Some (table c)\<rparr>)
      | None \<Rightarrow>
          (let nt = rep_nt (allocated c) (rep_key g ''_1'' sep)
                      (Action_text (if sep = None then ''collect'' else ''collect_sep''))
           in Inr (nt, c\<lparr>new_productions :=
                           Some (table c @ [(rep_key g ''_1'' sep, nt, one_or_more_prods nt g sep)]),
                         allocated := Suc (allocated c)\<rparr>)))"
  unfolding make_one_or_more_def make_repetition_unfold one_or_more_prods_def
  by (simp add: Let_def update_absent split: option.splits)

lemma rep_key_0_1: "rep_key g ''_0'' sep \<noteq> rep_key g ''_1'' sep"
  by (cases sep) (simp_all add: rep_key_def)

lemma make_zero_or_more_grows:
  "make_zero_or_more c g sep = Inr (nt, c') \<Longrightarrow> grows c c' \<and> new_productions c' \<noteq> None"
  unfolding make_zero_or_more_def
proof (erule make_repetition_grows[rotated], goal_cases)
  case (1 c nt ps c')
  then obtain o1 where m: "make_one_or_more c g sep = Inr (o1, c')"
    and ps: "ps = [Production_init nt [o1] ASSOC_NONE DEFAULT_PRIORITY False True False,
                   Production_new nt [EMPTY]]"
    by (auto split: sum.splits prod.splits)
  have lhs: "\<forall>p\<in>set ps. symbol p = nt"
    using ps by (simp add: Production_new_def Production_init_def)
  have keep: "map_of (table c) (rep_key g ''_0'' sep) = None \<longrightarrow>
              map_of (table c') (rep_key g ''_0'' sep) = None"
    using m rep_key_0_1[of g sep]
    by (auto simp: make_one_or_more_unfold Let_def split: option.splits)
  show ?case using make_one_or_more_grows[OF m] lhs keep by simp
qed

lemma grows_alloc: "grows c (c\<lparr>allocated := Suc (allocated c)\<rparr>)"
  by (simp add: grows_def created_between_def)

lemma act_repeatable_gsymbol_grows:
  assumes "act_repeatable_gsymbol c nodes = Inr (r, c')"
  shows "grows c c'"
proof (cases nodes)
  case (Pair g op)
  show ?thesis
  proof (cases op)
    case None
    with Pair assms show ?thesis by (simp add: act_repeatable_gsymbol_def grows_refl)
  next
    case (Some om)
    obtain rep_op modifiers where om: "om = (rep_op, modifiers)" by (cases om)
    define sep where "sep = (case modifiers of None \<Rightarrow> None
        | Some s \<Rightarrow> Some (Reference_new (Allocated (allocated c)) s))"
    define c1 where "c1 = (case modifiers of None \<Rightarrow> c
        | Some s \<Rightarrow> c\<lparr>allocated := Suc (allocated c)\<rparr>)"
    have g1: "grows c c1"
      by (cases modifiers) (simp_all add: c1_def grows_refl grows_alloc)
    have pair: "(case modifiers of None \<Rightarrow> (None, c)
                 | Some s \<Rightarrow> (Some (Reference_new (Allocated (allocated c)) s),
                              c\<lparr>allocated := Suc (allocated c)\<rparr>)) = (sep, c1)"
      by (cases modifiers) (simp_all add: sep_def c1_def)
    from assms Pair Some om pair
    have "(\<exists>nt. make_zero_or_more c1 g sep = Inr (nt, c'))
          \<or> (\<exists>nt. make_one_or_more c1 g sep = Inr (nt, c'))
          \<or> (\<exists>nt. make_optional c1 g sep = Inr (nt, c'))"
      by (simp add: act_repeatable_gsymbol_def split: if_splits sum.splits prod.splits)
    then have "grows c1 c'"
      using make_zero_or_more_grows make_one_or_more_grows make_optional_grows by blast
    with g1 show ?thesis by (rule grows_trans)
  qed
qed

lemma act_repeatable_gsymbols_grows:
  "act_repeatable_gsymbols c ns = Inr (rs, c') \<Longrightarrow> grows c c'"
proof (induction ns arbitrary: c rs)
  case Nil
  then show ?case by (simp add: grows_refl)
next
  case (Cons n ns)
  from Cons.prems obtain r c1 rs' where a: "act_repeatable_gsymbol c n = Inr (r, c1)"
    and b: "act_repeatable_gsymbols c1 ns = Inr (rs', c')"
    by (auto split: sum.splits prod.splits)
  show ?case using act_repeatable_gsymbol_grows[OF a] Cons.IH[OF b] by (rule grows_trans)
qed

lemma table_prods: "(\<lambda>(_, (nt, prods)). prods) = (\<lambda>e. snd (snd e))"
  by (simp add: fun_eq_iff split: prod.splits)

lemma act_pgfile_table:
  "new_productions c \<noteq> None \<Longrightarrow>
   snd (act_pgfile c imps rules) = rules @ concat (map (\<lambda>e. snd (snd e)) (table c))"
  by (auto simp: act_pgfile_def table_def table_prods)

lemma created_between_oid:
  "created_between lo hi es \<Longrightarrow> p \<in> set (concat (map (\<lambda>e. snd (snd e)) es)) \<Longrightarrow>
   \<exists>i. oid (symbol p) = Allocated i \<and> lo \<le> i \<and> i < hi"
  unfolding created_between_def by auto

lemma make_zero_or_more_unfold:
  "make_zero_or_more c g None =
     (case map_of (table c) (name g @ ''_0'') of
        Some e \<Rightarrow> Inr (fst e, c\<lparr>new_productions := Some (table c)\<rparr>)
      | None \<Rightarrow>
          (let X_0 = NonTerminal_new (Allocated (allocated c)) (name g @ ''_0'')
           in case map_of (table c) (name g @ ''_1'') of
                Some e \<Rightarrow>
                  Inr (X_0, c\<lparr>new_productions :=
                         Some (table c @ [(name g @ ''_0'', X_0,
                           [Production_init X_0 [fst e] ASSOC_NONE DEFAULT_PRIORITY False True False,
                            Production_new X_0 [EMPTY]])]),
                         allocated := Suc (allocated c)\<rparr>)
              | None \<Rightarrow>
                  (let X_1 = (NonTerminal_new (Allocated (Suc (allocated c))) (name g @ ''_1''))
                               \<lparr>action_name := Some ''collect''\<rparr>
                   in Inr (X_0, c\<lparr>new_productions :=
                         Some (table c @ [(name g @ ''_1'', X_1, one_or_more_prods X_1 g None),
                           (name g @ ''_0'', X_0,
                           [Production_init X_0 [X_1] ASSOC_NONE DEFAULT_PRIORITY False True False,
                            Production_new X_0 [EMPTY]])]),
                         allocated := Suc (Suc (allocated c))\<rparr>))))"
  unfolding make_zero_or_more_def make_repetition_unfold make_one_or_more_unfold
  by (simp add: Let_def rep_key_def rep_nt_def update_absent split: option.splits)

lemma act_pgfile_appended:
  "snd (act_pgfile (c\<lparr>new_productions := Some (table c @ es), allocated := n\<rparr>) imps rules)
   = snd (act_pgfile c imps rules) @ concat (map (\<lambda>e. snd (snd e)) es)"
  by (cases "new_productions c") (simp_all add: act_pgfile_def table_def table_prods)

text \<open>
  C7 (as amended). \<open>make_zero_or_more\<close> without a separator, for every base symbol
  \<open>X\<close>. In a context where neither \<open>X_0\<close> nor \<open>X_1\<close> has been generated yet, it
  returns the new non-terminal \<open>X_0\<close> and appends two entries to
  \<open>new_productions\<close>: \<open>X_1\<close> with \<open>X_1 \<rightarrow> X_1 X\<close> and \<open>X_1 \<rightarrow> X\<close>, and
  \<open>X_0\<close> with \<open>X_0 \<rightarrow> X_1\<close> (\<open>nops\<close> set) and the empty production for
  \<open>X_0 \<rightarrow> EMPTY\<close>; \<open>act_pgfile\<close> then hands exactly these four productions more to
  grammar construction. When \<open>X+\<close> has generated \<open>X_1\<close> before (the name was new
  then), any symbol occurrences have been processed since, and there is still no
  \<open>X_0\<close>, then \<open>X*\<close>, written with another reference to \<open>X\<close>, finds that
  \<open>X_1\<close> with its two productions, appends only the entry \<open>X_0\<close>, and
  \<open>act_pgfile\<close> hands exactly the two productions of \<open>X_0\<close> more to grammar
  construction. (\<open>Production.__init__\<close> stores a right-hand side of \<open>EMPTY\<close> only
  as the empty list, which is also what \<open>X_1 \<rightarrow> X\<close> becomes when \<open>X\<close> itself is
  \<open>EMPTY\<close>.)
\<close>

theorem make_zero_or_more_contributes:
  "(map_of (table ctx) (name X @ ''_0'') = None \<and> map_of (table ctx) (name X @ ''_1'') = None
    \<longrightarrow>
     (let X_0 = NonTerminal_new (Allocated (allocated ctx)) (name X @ ''_0'');
          X_1 = (NonTerminal_new (Allocated (Suc (allocated ctx))) (name X @ ''_1''))
                  \<lparr>action_name := Some ''collect''\<rparr>;
          p1 = \<lparr>symbol = X_1, rhs = [X_1, X], assoc = 0, prior = 10, dynamic = False,
                nops = False, nopse = False, prod_id = None, prod_symbol_id = None\<rparr>;
          p2 = \<lparr>symbol = X_1, rhs = (if py_eq X EMPTY then [] else [X]), assoc = 0,
                prior = 10, dynamic = False, nops = False, nopse = False,
                prod_id = None, prod_symbol_id = None\<rparr>;
          p3 = \<lparr>symbol = X_0, rhs = [X_1], assoc = 0, prior = 10, dynamic = False,
                nops = True, nopse = False, prod_id = None, prod_symbol_id = None\<rparr>;
          p4 = \<lparr>symbol = X_0, rhs = [], assoc = 0, prior = 10, dynamic = False,
                nops = False, nopse = False, prod_id = None, prod_symbol_id = None\<rparr>;
          ctx' = ctx\<lparr>new_productions :=
                       Some (table ctx @ [(name X @ ''_1'', X_1, [p1, p2]),
                                          (name X @ ''_0'', X_0, [p3, p4])]),
                     allocated := allocated ctx + 2\<rparr>
      in make_zero_or_more ctx X None = Inr (X_0, ctx')
         \<and> snd (act_pgfile ctx' imps rules) = snd (act_pgfile ctx imps rules) @ [p1, p2, p3, p4]))
   \<and> (map_of (table ctx) (name X @ ''_1'') = None
      \<and> make_one_or_more ctx X None = Inr (X_1, ctx1)
      \<and> act_repeatable_gsymbols ctx1 others = Inr (rs, ctx2)
      \<and> map_of (table ctx2) (name X @ ''_0'') = None
      \<and> name X' = name X
    \<longrightarrow>
     (let X_0 = NonTerminal_new (Allocated (allocated ctx2)) (name X @ ''_0'');
          p1 = \<lparr>symbol = X_1, rhs = [X_1, X], assoc = 0, prior = 10, dynamic = False,
                nops = False, nopse = False, prod_id = None, prod_symbol_id = None\<rparr>;
          p2 = \<lparr>symbol = X_1, rhs = (if py_eq X EMPTY then [] else [X]), assoc = 0,
                prior = 10, dynamic = False, nops = False, nopse = False,
                prod_id = None, prod_symbol_id = None\<rparr>;
          p3 = \<lparr>symbol = X_0, rhs = [X_1], assoc = 0, prior = 10, dynamic = False,
                nops = True, nopse = False, prod_id = None, prod_symbol_id = None\<rparr>;
          p4 = \<lparr>symbol = X_0, rhs = [], assoc = 0, prior = 10, dynamic = False,
                nops = False, nopse = False, prod_id = None, prod_symbol_id = None\<rparr>;
          ctx' = ctx2\<lparr>new_productions := Some (table ctx2 @ [(name X @ ''_0'', X_0, [p3, p4])]),
                      allocated := allocated ctx2 + 1\<rparr>
      in map_of (table ctx2) (name X @ ''_1'') = Some (X_1, [p1, p2])
         \<and> make_zero_or_more ctx2 X' None = Inr (X_0, ctx')
         \<and> snd (act_pgfile ctx' imps rules) = snd (act_pgfile ctx2 imps rules) @ [p3, p4]))"
proof (intro conjI impI)
  assume a: "map_of (table ctx) (name X @ ''_0'') = None \<and> map_of (table ctx) (name X @ ''_1'') = None"
  have e: "py_eq EMPTY EMPTY" by (simp add: py_eq_def)
  note n1 = aux_not_EMPTY_1 [where k="Suc (allocated ctx)" and x="name X" and a="Some ''collect''"]
  show "let X_0 = NonTerminal_new (Allocated (allocated ctx)) (name X @ ''_0'');
          X_1 = (NonTerminal_new (Allocated (Suc (allocated ctx))) (name X @ ''_1''))
                  \<lparr>action_name := Some ''collect''\<rparr>;
          p1 = \<lparr>symbol = X_1, rhs = [X_1, X], assoc = 0, prior = 10, dynamic = False,
                nops = False, nopse = False, prod_id = None, prod_symbol_id = None\<rparr>;
          p2 = \<lparr>symbol = X_1, rhs = (if py_eq X EMPTY then [] else [X]), assoc = 0,
                prior = 10, dynamic = False, nops = False, nopse = False,
                prod_id = None, prod_symbol_id = None\<rparr>;
          p3 = \<lparr>symbol = X_0, rhs = [X_1], assoc = 0, prior = 10, dynamic = False,
                nops = True, nopse = False, prod_id = None, prod_symbol_id = None\<rparr>;
          p4 = \<lparr>symbol = X_0, rhs = [], assoc = 0, prior = 10, dynamic = False,
                nops = False, nopse = False, prod_id = None, prod_symbol_id = None\<rparr>;
          ctx' = ctx\<lparr>new_productions :=
                       Some (table ctx @ [(name X @ ''_1'', X_1, [p1, p2]),
                                          (name X @ ''_0'', X_0, [p3, p4])]),
                     allocated := allocated ctx + 2\<rparr>
      in make_zero_or_more ctx X None = Inr (X_0, ctx')
         \<and> snd (act_pgfile ctx' imps rules) = snd (act_pgfile ctx imps rules) @ [p1, p2, p3, p4]"
    unfolding Let_def act_pgfile_appended
    using a n1 e
    by (simp add: make_zero_or_more_unfold Let_def one_or_more_prods_def
        Production_new_def Production_init_def ProductionRHS_len_def
        ASSOC_NONE_def DEFAULT_PRIORITY_def)
next
  assume h: "map_of (table ctx) (name X @ ''_1'') = None
      \<and> make_one_or_more ctx X None = Inr (X_1, ctx1)
      \<and> act_repeatable_gsymbols ctx1 others = Inr (rs, ctx2)
      \<and> map_of (table ctx2) (name X @ ''_0'') = None
      \<and> name X' = name X"
  let ?k = "name X @ ''_1''"
  define p1 where "p1 = \<lparr>symbol = X_1, rhs = [X_1, X], assoc = 0, prior = 10, dynamic = False,
                nops = False, nopse = False, prod_id = None, prod_symbol_id = None\<rparr>"
  define p2 where "p2 = \<lparr>symbol = X_1, rhs = (if py_eq X EMPTY then [] else [X]), assoc = 0,
                prior = 10, dynamic = False, nops = False, nopse = False,
                prod_id = None, prod_symbol_id = None\<rparr>"
  from h have absent: "map_of (table ctx) ?k = None"
    and first: "make_one_or_more ctx X None = Inr (X_1, ctx1)"
    and mid: "act_repeatable_gsymbols ctx1 others = Inr (rs, ctx2)"
    and absent0: "map_of (table ctx2) (name X @ ''_0'') = None"
    and same: "name X' = name X" by simp_all
  have k: "rep_key X ''_1'' None = ?k" by (simp add: rep_key_def)
  have nt: "X_1 = (NonTerminal_new (Allocated (allocated ctx)) ?k)\<lparr>action_name := Some ''collect''\<rparr>"
    and ctx1: "ctx1 = ctx\<lparr>new_productions := Some (table ctx @ [(?k, X_1, one_or_more_prods X_1 X None)]),
                         allocated := Suc (allocated ctx)\<rparr>"
    using first absent by (auto simp: make_one_or_more_unfold k Let_def rep_nt_def)
  have ne: "\<not> py_eq X_1 EMPTY" unfolding nt by (rule aux_not_EMPTY_1)
  have prods: "one_or_more_prods X_1 X None = [p1, p2]"
    using ne by (simp add: one_or_more_prods_def Production_new_def Production_init_def
        ProductionRHS_len_def ASSOC_NONE_def DEFAULT_PRIORITY_def p1_def p2_def)
  have t1: "table ctx1 = table ctx @ [(?k, X_1, [p1, p2])]"
    using ctx1 prods by simp
  from act_repeatable_gsymbols_grows[OF mid] obtain added where
    t2: "table ctx2 = table ctx1 @ added"
    unfolding grows_def by blast
  have look: "map_of (table ctx2) ?k = Some (X_1, [p1, p2])"
    using absent t1 t2 by (simp add: map_add_def)
  have e: "py_eq EMPTY EMPTY" by (simp add: py_eq_def)
  have z: "make_zero_or_more ctx2 X' None =
      Inr (NonTerminal_new (Allocated (allocated ctx2)) (name X @ ''_0''),
           ctx2\<lparr>new_productions := Some (table ctx2 @ [(name X @ ''_0'',
               NonTerminal_new (Allocated (allocated ctx2)) (name X @ ''_0''),
               [\<lparr>symbol = NonTerminal_new (Allocated (allocated ctx2)) (name X @ ''_0''),
                  rhs = [X_1], assoc = 0, prior = 10, dynamic = False,
                  nops = True, nopse = False, prod_id = None, prod_symbol_id = None\<rparr>,
                \<lparr>symbol = NonTerminal_new (Allocated (allocated ctx2)) (name X @ ''_0''),
                  rhs = [], assoc = 0, prior = 10, dynamic = False,
                  nops = False, nopse = False, prod_id = None, prod_symbol_id = None\<rparr>])]),
             allocated := allocated ctx2 + 1\<rparr>)"
    using absent0 look ne e
    by (simp add: make_zero_or_more_unfold same Let_def Production_new_def Production_init_def
        ProductionRHS_len_def ASSOC_NONE_def DEFAULT_PRIORITY_def)
  show "let X_0 = NonTerminal_new (Allocated (allocated ctx2)) (name X @ ''_0'');
          p1 = \<lparr>symbol = X_1, rhs = [X_1, X], assoc = 0, prior = 10, dynamic = False,
                nops = False, nopse = False, prod_id = None, prod_symbol_id = None\<rparr>;
          p2 = \<lparr>symbol = X_1, rhs = (if py_eq X EMPTY then [] else [X]), assoc = 0,
                prior = 10, dynamic = False, nops = False, nopse = False,
                prod_id = None, prod_symbol_id = None\<rparr>;
          p3 = \<lparr>symbol = X_0, rhs = [X_1], assoc = 0, prior = 10, dynamic = False,
                nops = True, nopse = False, prod_id = None, prod_symbol_id = None\<rparr>;
          p4 = \<lparr>symbol = X_0, rhs = [], assoc = 0, prior = 10, dynamic = False,
                nops = False, nopse = False, prod_id = None, prod_symbol_id = None\<rparr>;
          ctx' = ctx2\<lparr>new_productions := Some (table ctx2 @ [(name X @ ''_0'', X_0, [p3, p4])]),
                      allocated := allocated ctx2 + 1\<rparr>
      in map_of (table ctx2) (name X @ ''_1'') = Some (X_1, [p1, p2])
         \<and> make_zero_or_more ctx2 X' None = Inr (X_0, ctx')
         \<and> snd (act_pgfile ctx' imps rules) = snd (act_pgfile ctx2 imps rules) @ [p3, p4]"
    unfolding Let_def act_pgfile_appended
    using look z by (simp add: p1_def p2_def)
qed

text \<open>
  C7 as stated fails when \<open>X+\<close> was desugared before: the repetitions are memoized,
  so \<open>X*\<close> finds the entry \<open>X_1\<close> and contributes two productions, not four.
\<close>

theorem zero_or_more_after_one_or_more:
  "let X = Reference_new (Allocated 0) ''X'';
       X' = Reference_new (Allocated 1) ''X'';
       X_1 = (NonTerminal_new (Allocated 2) ''X_1'')\<lparr>action_name := Some ''collect''\<rparr>;
       X_0 = NonTerminal_new (Allocated 3) ''X_0'';
       p1 = \<lparr>symbol = X_1, rhs = [X_1, X], assoc = 0, prior = 10, dynamic = False,
             nops = False, nopse = False, prod_id = None, prod_symbol_id = None\<rparr>;
       p2 = \<lparr>symbol = X_1, rhs = [X], assoc = 0, prior = 10, dynamic = False,
             nops = False, nopse = False, prod_id = None, prod_symbol_id = None\<rparr>;
       p3 = \<lparr>symbol = X_0, rhs = [X_1], assoc = 0, prior = 10, dynamic = False,
             nops = True, nopse = False, prod_id = None, prod_symbol_id = None\<rparr>;
       p4 = \<lparr>symbol = X_0, rhs = [], assoc = 0, prior = 10, dynamic = False,
             nops = False, nopse = False, prod_id = None, prod_symbol_id = None\<rparr>;
       c0 = \<lparr>new_productions = None, allocated = 2\<rparr>;
       c1 = \<lparr>new_productions = Some [(''X_1'', X_1, [p1, p2])], allocated = 3\<rparr>;
       c2 = \<lparr>new_productions = Some [(''X_1'', X_1, [p1, p2]), (''X_0'', X_0, [p3, p4])],
             allocated = 4\<rparr>
   in make_one_or_more c0 X None = Inr (X_1, c1)
      \<and> make_zero_or_more c1 X' None = Inr (X_0, c2)
      \<and> snd (act_pgfile c1 (None :: nat list option) []) = [p1, p2]
      \<and> snd (act_pgfile c2 (None :: nat list option) []) = [p1, p2] @ [p3, p4]"
  by (simp add: make_zero_or_more_def make_one_or_more_def make_repetition_def Let_def name_def
      Reference_new_def NonTerminal_new_def Production_new_def Production_init_def
      ProductionRHS_len_def py_eq_def EMPTY_def Terminal_new_def escape_def replace_char_def
      ASSOC_NONE_def DEFAULT_PRIORITY_def act_pgfile_def)

lemma make_repetition_memoized:
  assumes "make_repetition c g sep suffix act pc = Inr (nt, c1)"
  shows "make_repetition c1 g sep suffix act pc' = Inr (nt, c1)"
proof -
  let ?k = "rep_key g suffix sep"
  have "\<exists>ps. map_of (table c1) ?k = Some (nt, ps) \<and> new_productions c1 = Some (table c1)"
  proof (cases "map_of (table c) ?k")
    case (Some e)
    with assms have "nt = fst e" "c1 = c\<lparr>new_productions := Some (table c)\<rparr>"
      by (simp_all add: make_repetition_unfold)
    with Some show ?thesis by (cases e) simp
  next
    case None
    with assms obtain ps c3 np3 where
      "c1 = c3\<lparr>new_productions := Some (AList.update ?k (nt, ps) np3)\<rparr>"
      by (auto simp: make_repetition_unfold split: sum.splits option.splits)
    then show ?thesis by (simp add: update_conv')
  qed
  then obtain ps where l: "map_of (table c1) ?k = Some (nt, ps)"
    and s: "new_productions c1 = Some (table c1)" by blast
  from s have "c1\<lparr>new_productions := Some (table c1)\<rparr> = c1" by simp
  with l show ?thesis by (simp add: make_repetition_unfold)
qed

lemma desugaring_memoized:
  "make_one_or_more c g sep = Inr (nt, c1) \<Longrightarrow> make_one_or_more c1 g sep = Inr (nt, c1)"
  "make_zero_or_more c g sep = Inr (nt, c1) \<Longrightarrow> make_zero_or_more c1 g sep = Inr (nt, c1)"
  "make_optional c g sep = Inr (nt, c1) \<Longrightarrow> make_optional c1 g sep = Inr (nt, c1)"
  unfolding make_one_or_more_def make_zero_or_more_def make_optional_def
  by (rule make_repetition_memoized, assumption)+

lemma act_repeatable_gsymbol_plus:
  "act_repeatable_gsymbol c (g, Some (''+'', None)) =
     (case make_one_or_more c g None of
        Inl e \<Rightarrow> Inl e
      | Inr (nt, c') \<Rightarrow> Inr ((nt, g, MULT_ONE_OR_MORE), c'))"
  by (simp add: act_repeatable_gsymbol_def)

text \<open>
  When the name \<open>X_1\<close> is new at the first \<open>X+\<close>, a later \<open>X+\<close>, written with
  another reference to \<open>X\<close> after any further symbol occurrences, returns the same
  non-terminal and leaves the context as it is; \<open>new_productions\<close> holds exactly one
  entry named \<open>X_1\<close>, with the two productions \<open>X_1 \<rightarrow> X_1 X\<close> and \<open>X_1 \<rightarrow> X\<close>,
  and each of the two occurs exactly once in the production list that \<open>act_pgfile\<close>
  returns. The hypotheses on identities say that objects created earlier are not the new
  object.
\<close>

lemma one_or_more_shared:
  assumes first: "act_repeatable_gsymbol ctx (X, Some (''+'', None)) = Inr ((nt, g1, m1), ctx1)"
    and absent: "map_of (table ctx) (name X @ ''_1'') = None"
    and old: "created_between 0 (allocated ctx) (table ctx)"
    and rules: "\<forall>p \<in> set rules. oid (symbol p) \<noteq> oid nt"
    and mid: "act_repeatable_gsymbols ctx1 others = Inr (rs, ctx2)"
    and same: "name X' = name X"
  shows "let p1 = \<lparr>symbol = nt, rhs = [nt, X], assoc = 0, prior = 10, dynamic = False,
                   nops = False, nopse = False, prod_id = None, prod_symbol_id = None\<rparr>;
             p2 = \<lparr>symbol = nt, rhs = (if py_eq X EMPTY then [] else [X]), assoc = 0, prior = 10,
                   dynamic = False, nops = False, nopse = False, prod_id = None,
                   prod_symbol_id = None\<rparr>;
             final = snd (act_pgfile ctx2 imps rules)
         in act_repeatable_gsymbol ctx2 (X', Some (''+'', None))
              = Inr ((nt, X', MULT_ONE_OR_MORE), ctx2)
            \<and> filter (\<lambda>e. fst e = name X @ ''_1'') (table ctx2) = [(name X @ ''_1'', nt, [p1, p2])]
            \<and> count_list final p1 = 1 \<and> count_list final p2 = 1
            \<and> cls nt = NonTerminal \<and> init_name nt = name X @ ''_1''"
proof -
  let ?k = "name X @ ''_1''"
  define p1 where "p1 = \<lparr>symbol = nt, rhs = [nt, X], assoc = 0, prior = 10, dynamic = False,
                   nops = False, nopse = False, prod_id = None, prod_symbol_id = None\<rparr>"
  define p2 where "p2 = \<lparr>symbol = nt, rhs = (if py_eq X EMPTY then [] else [X]), assoc = 0,
                   prior = 10, dynamic = False, nops = False, nopse = False, prod_id = None,
                   prod_symbol_id = None\<rparr>"
  have k: "rep_key X ''_1'' None = ?k" by (simp add: rep_key_def)
  have k': "rep_key X' ''_1'' None = ?k" by (simp add: rep_key_def same)
  from first have first': "make_one_or_more ctx X None = Inr (nt, ctx1)"
    by (auto simp: act_repeatable_gsymbol_plus split: sum.splits)
  have nt: "nt = (NonTerminal_new (Allocated (allocated ctx)) ?k)\<lparr>action_name := Some ''collect''\<rparr>"
    and ctx1: "ctx1 = ctx\<lparr>new_productions := Some (table ctx @ [(?k, nt, one_or_more_prods nt X None)]),
                         allocated := Suc (allocated ctx)\<rparr>"
    using first' absent by (auto simp: make_one_or_more_unfold k Let_def rep_nt_def)
  have ne: "\<not> py_eq nt EMPTY" unfolding nt by (rule aux_not_EMPTY_1)
  have prods: "one_or_more_prods nt X None = [p1, p2]"
    using ne by (simp add: one_or_more_prods_def Production_new_def Production_init_def
        ProductionRHS_len_def ASSOC_NONE_def DEFAULT_PRIORITY_def p1_def p2_def)
  have oidnt: "oid nt = Allocated (allocated ctx)" by (simp add: nt NonTerminal_new_def)
  have t1: "table ctx1 = table ctx @ [(?k, nt, [p1, p2])]"
    and al1: "allocated ctx1 = Suc (allocated ctx)" and s1: "new_productions ctx1 \<noteq> None"
    using ctx1 prods by simp_all
  from act_repeatable_gsymbols_grows[OF mid] obtain added where
    t2: "table ctx2 = table ctx1 @ added"
    and cb: "created_between (allocated ctx1) (allocated ctx2) added"
    and dj: "set (map fst added) \<inter> set (map fst (table ctx1)) = {}"
    and s2: "new_productions ctx2 \<noteq> None"
    unfolding grows_def using s1 by blast
  have kold: "?k \<notin> fst ` set (table ctx)" using absent by (simp add: map_of_eq_None_iff)
  have kadd: "?k \<notin> fst ` set added" using dj t1 by auto
  have ctx2: "ctx2\<lparr>new_productions := Some (table ctx2)\<rparr> = ctx2"
    using s2 by (auto simp: table_def)
  have look: "map_of (table ctx2) ?k = Some (nt, [p1, p2])"
    using absent t1 t2 by (simp add: map_add_def)
  have "make_one_or_more ctx2 X' None = Inr (nt, ctx2)"
    using look ctx2 by (simp add: make_one_or_more_unfold k')
  then have second: "act_repeatable_gsymbol ctx2 (X', Some (''+'', None))
      = Inr ((nt, X', MULT_ONE_OR_MORE), ctx2)"
    by (simp add: act_repeatable_gsymbol_plus)
  have f0: "filter (\<lambda>e. fst e = ?k) (table ctx) = []" using kold by (force simp: filter_empty_conv)
  have f2: "filter (\<lambda>e. fst e = ?k) added = []" using kadd by (force simp: filter_empty_conv)
  have filt: "filter (\<lambda>e. fst e = ?k) (table ctx2) = [(?k, nt, [p1, p2])]"
    using f0 f2 t1 t2 by simp
  have sym1: "symbol p1 = nt" and sym2: "symbol p2 = nt" by (simp_all add: p1_def p2_def)
  have in_rules: "p1 \<notin> set rules" "p2 \<notin> set rules"
    using rules sym1 sym2 by (metis, metis)
  have no_old: "p \<notin> set (concat (map (\<lambda>e. snd (snd e)) (table ctx)))" if "symbol p = nt" for p
  proof
    assume "p \<in> set (concat (map (\<lambda>e. snd (snd e)) (table ctx)))"
    from created_between_oid[OF old this] obtain i where
      "oid (symbol p) = Allocated i" "i < allocated ctx" by blast
    with that oidnt show False by simp
  qed
  have no_add: "p \<notin> set (concat (map (\<lambda>e. snd (snd e)) added))" if "symbol p = nt" for p
  proof
    assume "p \<in> set (concat (map (\<lambda>e. snd (snd e)) added))"
    from created_between_oid[OF cb this] obtain i where
      "oid (symbol p) = Allocated i" "allocated ctx1 \<le> i" by blast
    with that oidnt al1 show False by simp
  qed
  note in_old = no_old[OF sym1] no_old[OF sym2]
  note in_add = no_add[OF sym1] no_add[OF sym2]
  have neq: "p1 \<noteq> p2" by (simp add: p1_def p2_def)
  have fin: "snd (act_pgfile ctx2 imps rules)
      = rules @ concat (map (\<lambda>e. snd (snd e)) (table ctx)) @ [p1, p2]
          @ concat (map (\<lambda>e. snd (snd e)) added)"
    using act_pgfile_table[OF s2] t1 t2 by simp
  have c1: "count_list (snd (act_pgfile ctx2 imps rules)) p1 = 1"
    unfolding fin using in_rules(1) in_old(1) in_add(1) neq by simp
  have c2: "count_list (snd (act_pgfile ctx2 imps rules)) p2 = 1"
    unfolding fin using in_rules(2) in_old(2) in_add(2) neq by simp
  have cl: "cls nt = NonTerminal" "init_name nt = ?k" by (simp_all add: nt NonTerminal_new_def)
  show ?thesis
    unfolding Let_def using second filt c1 c2 cl unfolding p1_def p2_def by blast
qed

text \<open>
  C6. The desugaring should be memoized per base symbol, operator and separator.
  \<open>make_repetition\<close> memoizes by the generated name, and the names of different
  repetitions collide: \<open>A+[B_1]\<close> and \<open>A_1_B+\<close> both give \<open>A_1_B_1\<close>. In a
  grammar that uses \<open>A+[B_1]\<close> and then \<open>A_1_B+\<close> in two rules, every use returns
  the non-terminal of \<open>A+[B_1]\<close>; for \<open>X = A_1_B\<close> there is one non-terminal named
  \<open>X_1\<close>, but its productions are \<open>X_1 \<rightarrow> X_1 B_1 A\<close> and \<open>X_1 \<rightarrow> A\<close>, and the
  generating productions \<open>X_1 \<rightarrow> X_1 X\<close> and \<open>X_1 \<rightarrow> X\<close> of \<open>X+\<close> are not in the
  list that \<open>act_pgfile\<close> returns. The theorem gives the three calls of
  \<open>make_one_or_more\<close> first, and then the same run through
  \<open>act_repeatable_gsymbol\<close>, which creates the reference to the separator.
\<close>

theorem one_or_more_name_collision:
  "let A = Reference_new (Allocated 0) ''A'';
       X = Reference_new (Allocated 1) ''A_1_B'';
       X' = Reference_new (Allocated 2) ''A_1_B'';
       B_1 = Reference_new (Allocated 3) ''B_1'';
       N = (NonTerminal_new (Allocated 4) ''A_1_B_1'')\<lparr>action_name := Some ''collect_sep''\<rparr>;
       q1 = \<lparr>symbol = N, rhs = [N, B_1, A], assoc = 0, prior = 10, dynamic = False,
             nops = False, nopse = False, prod_id = None, prod_symbol_id = None\<rparr>;
       q2 = \<lparr>symbol = N, rhs = [A], assoc = 0, prior = 10, dynamic = False,
             nops = False, nopse = False, prod_id = None, prod_symbol_id = None\<rparr>;
       rule_S = Production_new (NonTerminal_new (Allocated 5) ''S'') [N, N];
       rule_T = Production_new (NonTerminal_new (Allocated 6) ''T'') [N];
       c0 = \<lparr>new_productions = None, allocated = 3\<rparr>;
       c1 = \<lparr>new_productions = None, allocated = 4\<rparr>;
       c3 = \<lparr>new_productions = Some [(''A_1_B_1'', N, [q1, q2])], allocated = 5\<rparr>
   in make_one_or_more c1 A (Some B_1) = Inr (N, c3)
      \<and> make_one_or_more c3 X None = Inr (N, c3)
      \<and> make_one_or_more c3 X' None = Inr (N, c3)
      \<and> act_repeatable_gsymbols c0
        [(A, Some (''+'', Some ''B_1'')), (X, Some (''+'', None)), (X', Some (''+'', None))]
        = Inr ([(N, A, MULT_ONE_OR_MORE), (N, X, MULT_ONE_OR_MORE), (N, X', MULT_ONE_OR_MORE)], c3)
      \<and> snd (act_pgfile c3 (None :: nat list option) [rule_S, rule_T])
          = [rule_S, rule_T, q1, q2]
      \<and> name N = name X @ ''_1''
      \<and> filter (\<lambda>p. X \<in> set (rhs p) \<or> X' \<in> set (rhs p))
           (snd (act_pgfile c3 (None :: nat list option) [rule_S, rule_T])) = []"
  by (simp add: act_repeatable_gsymbol_def make_one_or_more_def make_repetition_def Let_def
      name_def Reference_new_def NonTerminal_new_def Production_new_def Production_init_def
      ProductionRHS_len_def py_eq_def EMPTY_def Terminal_new_def escape_def replace_char_def
      ASSOC_NONE_def DEFAULT_PRIORITY_def act_pgfile_def MULT_ONE_OR_MORE_def)

lemma make_optional_sep_raises:
  "map_of (table c) (name g @ ''_opt_'' @ name sep) = None \<Longrightarrow>
   make_optional c g (Some sep) = Inl (GrammarError (Modifier_on_optional (name g)))"
  by (simp add: make_optional_def make_repetition_unfold rep_key_def)

text \<open>
  C9. \<open>make_optional\<close> with a separator should raise a \<open>GrammarError\<close> for every
  base symbol and separator. It does when the generated name is not in
  \<open>new_productions\<close> (lemma \<open>make_optional_sep_raises\<close>), but \<open>make_repetition\<close>
  looks the name up before it calls the callable that raises, and the generated names
  collide: \<open>X?[s_1]\<close> and \<open>X_opt_s+\<close> both give \<open>X_opt_s_1\<close>. After
  \<open>X_opt_s+\<close>, desugaring \<open>X?[s_1]\<close> returns the non-terminal of \<open>X_opt_s+\<close> and
  raises nothing.
\<close>

theorem make_optional_separator_memo_hit:
  "let c0 = \<lparr>new_productions = None, allocated = 3\<rparr>;
       X_opt_s_1 = (NonTerminal_new (Allocated 3) ''X_opt_s_1'')\<lparr>action_name := Some ''collect''\<rparr>;
       c1 = \<lparr>new_productions = Some [(''X_opt_s_1'', X_opt_s_1,
               [Production_new X_opt_s_1 [X_opt_s_1, Reference_new (Allocated 0) ''X_opt_s''],
                Production_new X_opt_s_1 [Reference_new (Allocated 0) ''X_opt_s'']])],
             allocated = 4\<rparr>
   in make_one_or_more c0 (Reference_new (Allocated 0) ''X_opt_s'') None = Inr (X_opt_s_1, c1)
      \<and> make_optional c1 (Reference_new (Allocated 1) ''X'')
            (Some (Reference_new (Allocated 2) ''s_1'')) = Inr (X_opt_s_1, c1)"
  by (simp add: make_optional_def make_one_or_more_def make_repetition_def Let_def name_def
      Reference_new_def NonTerminal_new_def)

theorem make_zero_or_more_contributes_witness:
  "let X = Reference_new (Allocated 0) ''X'';
       X' = Reference_new (Allocated 1) ''X'';
       Y = Reference_new (Allocated 2) ''Y'';
       c0 = \<lparr>new_productions = None, allocated = 3\<rparr>;
       X_0 = NonTerminal_new (Allocated 3) ''X_0'';
       X_1 = (NonTerminal_new (Allocated 4) ''X_1'')\<lparr>action_name := Some ''collect''\<rparr>;
       p1 = \<lparr>symbol = X_1, rhs = [X_1, X], assoc = 0, prior = 10, dynamic = False,
             nops = False, nopse = False, prod_id = None, prod_symbol_id = None\<rparr>;
       p2 = \<lparr>symbol = X_1, rhs = [X], assoc = 0, prior = 10, dynamic = False,
             nops = False, nopse = False, prod_id = None, prod_symbol_id = None\<rparr>;
       p3 = \<lparr>symbol = X_0, rhs = [X_1], assoc = 0, prior = 10, dynamic = False,
             nops = True, nopse = False, prod_id = None, prod_symbol_id = None\<rparr>;
       p4 = \<lparr>symbol = X_0, rhs = [], assoc = 0, prior = 10, dynamic = False,
             nops = False, nopse = False, prod_id = None, prod_symbol_id = None\<rparr>;
       c' = \<lparr>new_productions = Some [(''X_1'', X_1, [p1, p2]), (''X_0'', X_0, [p3, p4])],
             allocated = 5\<rparr>;
       N = (NonTerminal_new (Allocated 3) ''X_1'')\<lparr>action_name := Some ''collect''\<rparr>;
       q1 = \<lparr>symbol = N, rhs = [N, X], assoc = 0, prior = 10, dynamic = False,
             nops = False, nopse = False, prod_id = None, prod_symbol_id = None\<rparr>;
       q2 = \<lparr>symbol = N, rhs = [X], assoc = 0, prior = 10, dynamic = False,
             nops = False, nopse = False, prod_id = None, prod_symbol_id = None\<rparr>;
       c1 = \<lparr>new_productions = Some [(''X_1'', N, [q1, q2])], allocated = 4\<rparr>;
       Y_1 = (NonTerminal_new (Allocated 4) ''Y_1'')\<lparr>action_name := Some ''collect''\<rparr>;
       r1 = \<lparr>symbol = Y_1, rhs = [Y_1, Y], assoc = 0, prior = 10, dynamic = False,
             nops = False, nopse = False, prod_id = None, prod_symbol_id = None\<rparr>;
       r2 = \<lparr>symbol = Y_1, rhs = [Y], assoc = 0, prior = 10, dynamic = False,
             nops = False, nopse = False, prod_id = None, prod_symbol_id = None\<rparr>;
       c2 = \<lparr>new_productions = Some [(''X_1'', N, [q1, q2]), (''Y_1'', Y_1, [r1, r2])],
             allocated = 5\<rparr>;
       Z_0 = NonTerminal_new (Allocated 5) ''X_0'';
       q3 = \<lparr>symbol = Z_0, rhs = [N], assoc = 0, prior = 10, dynamic = False,
             nops = True, nopse = False, prod_id = None, prod_symbol_id = None\<rparr>;
       q4 = \<lparr>symbol = Z_0, rhs = [], assoc = 0, prior = 10, dynamic = False,
             nops = False, nopse = False, prod_id = None, prod_symbol_id = None\<rparr>;
       c3 = \<lparr>new_productions = Some [(''X_1'', N, [q1, q2]), (''Y_1'', Y_1, [r1, r2]),
                                      (''X_0'', Z_0, [q3, q4])],
             allocated = 6\<rparr>
   in map_of (table c0) (name X @ ''_0'') = None
      \<and> map_of (table c0) (name X @ ''_1'') = None
      \<and> make_zero_or_more c0 X None = Inr (X_0, c')
      \<and> snd (act_pgfile c' (None :: nat list option) []) = [p1, p2, p3, p4]
      \<and> make_one_or_more c0 X None = Inr (N, c1)
      \<and> act_repeatable_gsymbols c1 [(Y, Some (''+'', None))]
          = Inr ([(Y_1, Y, MULT_ONE_OR_MORE)], c2)
      \<and> map_of (table c2) (name X @ ''_0'') = None
      \<and> name X' = name X
      \<and> make_zero_or_more c2 X' None = Inr (Z_0, c3)
      \<and> snd (act_pgfile c2 (None :: nat list option) []) = [q1, q2, r1, r2]
      \<and> snd (act_pgfile c3 (None :: nat list option) []) = [q1, q2, r1, r2] @ [q3, q4]"
proof -
  let ?X = "Reference_new (Allocated 0) ''X''"
  let ?X' = "Reference_new (Allocated 1) ''X''"
  let ?Y = "Reference_new (Allocated 2) ''Y''"
  let ?c0 = "\<lparr>new_productions = None, allocated = 3\<rparr>"
  let ?N = "(NonTerminal_new (Allocated 3) ''X_1'')\<lparr>action_name := Some ''collect''\<rparr>"
  let ?q = "[\<lparr>symbol = ?N, rhs = [?N, ?X], assoc = 0, prior = 10, dynamic = False,
             nops = False, nopse = False, prod_id = None, prod_symbol_id = None\<rparr>,
       \<lparr>symbol = ?N, rhs = [?X], assoc = 0, prior = 10, dynamic = False,
             nops = False, nopse = False, prod_id = None, prod_symbol_id = None\<rparr>]"
  let ?c1 = "\<lparr>new_productions = Some [(''X_1'', ?N, ?q)], allocated = 4\<rparr>"
  let ?Y_1 = "(NonTerminal_new (Allocated 4) ''Y_1'')\<lparr>action_name := Some ''collect''\<rparr>"
  let ?r = "[\<lparr>symbol = ?Y_1, rhs = [?Y_1, ?Y], assoc = 0, prior = 10, dynamic = False,
             nops = False, nopse = False, prod_id = None, prod_symbol_id = None\<rparr>,
       \<lparr>symbol = ?Y_1, rhs = [?Y], assoc = 0, prior = 10, dynamic = False,
             nops = False, nopse = False, prod_id = None, prod_symbol_id = None\<rparr>]"
  let ?c2 = "\<lparr>new_productions = Some [(''X_1'', ?N, ?q), (''Y_1'', ?Y_1, ?r)], allocated = 5\<rparr>"
  note evs = make_one_or_more_def make_repetition_def Let_def table_def name_def Reference_new_def
      NonTerminal_new_def py_eq_def EMPTY_def Terminal_new_def escape_def replace_char_def
      act_pgfile_def act_repeatable_gsymbol_def Production_new_def Production_init_def
      ProductionRHS_len_def ASSOC_NONE_def DEFAULT_PRIORITY_def
  have first: "make_one_or_more ?c0 ?X None = Inr (?N, ?c1)" by (simp add: evs)
  have mid: "act_repeatable_gsymbols ?c1 [(?Y, Some (''+'', None))]
      = Inr ([(?Y_1, ?Y, MULT_ONE_OR_MORE)], ?c2)"
    by (simp add: evs)
  note th = make_zero_or_more_contributes
    [where ctx = ?c0 and X = ?X and imps = "None :: nat list option" and rules = "[]"
       and ?X_1.0 = ?N and ?ctx1.0 = ?c1 and others = "[(?Y, Some (''+'', None))]"
       and rs = "[(?Y_1, ?Y, MULT_ONE_OR_MORE)]" and ?ctx2.0 = ?c2 and X' = ?X']
  show ?thesis
    using th first mid
    by (simp add: Let_def table_def name_def Reference_new_def NonTerminal_new_def py_eq_def
      EMPTY_def Terminal_new_def escape_def replace_char_def act_pgfile_def eval_nat_numeral)
qed

section \<open>Properties of grammar construction\<close>

lemma set_py_set_add: "set (py_set_add x s) \<subseteq> insert x (set s)"
  by (auto simp: py_set_add_def)

lemma set_py_set_add_mono: "set s \<subseteq> set (py_set_add x s)"
  by (auto simp: py_set_add_def)

lemma py_set_add_not_Nil: "py_set_add x s \<noteq> []"
  by (auto simp: py_set_add_def py_in_def)

lemma check_connect_loop_unset:
  "terms \<noteq> [] \<Longrightarrow> check_connect_loop None terms st = Inl (AttributeError ''recognizers'')"
  by (cases terms) simp_all

lemma PGFile_init_fields:
  "PGFile_init st prods fpath recs = Inr (g, st1) \<Longrightarrow>
     productions g = prods \<and> recognizers g = None \<and> fpath = Some (file_path g)
     \<and> (\<exists>r2t. collect_loop prods [] [] (n_objects st) = Inr (symbols_by_name g, r2t, n_objects st1))
     \<and> recognizer_of st1 = recognizer_of st \<and> keyword_of st1 = keyword_of st"
  by (auto simp: PGFile_init_def split: option.splits sum.splits)

lemma collect_grammar_symbols_fields:
  "collect_grammar_symbols (g, st) = Inr (g', st') \<Longrightarrow>
     productions g' = productions g \<and> recognizers g' = recognizers g
     \<and> start_symbol g' = start_symbol g \<and> no_check_recognizers g' = no_check_recognizers g
     \<and> file_path g' = file_path g
     \<and> collect_loop (productions g) [] [] (n_objects st)
           = Inr (symbols_by_name g', recog_to_terminals g', n_objects st')
     \<and> terminals g' = py_set (filter (\<lambda>x. cls x = Terminal) (map snd (symbols_by_name g')))
     \<and> nonterminals g' = py_set (filter (\<lambda>x. cls x = NonTerminal) (map snd (symbols_by_name g')))
     \<and> recognizer_of st' = recognizer_of st \<and> keyword_of st' = keyword_of st"
  by (auto simp: collect_grammar_symbols_def split: sum.splits)

lemma add_special_terminals_fields:
  "productions (add_special_terminals g) = productions g"
  "recognizers (add_special_terminals g) = recognizers g"
  "start_symbol (add_special_terminals g) = start_symbol g"
  "no_check_recognizers (add_special_terminals g) = no_check_recognizers g"
  "file_path (add_special_terminals g) = file_path g"
  "recog_to_terminals (add_special_terminals g) = recog_to_terminals g"
  "nonterminals (add_special_terminals g) = nonterminals g"
  "terminals (add_special_terminals g) \<noteq> []"
  by (simp_all add: add_special_terminals_def py_set_add_not_Nil)

lemma checking_never_succeeds:
  "isl (Grammar_init re st prods fpath recs start False)"
proof (cases "PGFile_init st prods fpath recs")
  case (Inl e)
  then show ?thesis by (simp add: Grammar_init_def)
next
  case (Inr r)
  obtain g st1 where r: "r = (g, st1)" by (cases r)
  note f = PGFile_init_fields[OF Inr[unfolded r]]
  show ?thesis
  proof (cases "determine_start_symbol (productions g) start")
    case (Inl e)
    then show ?thesis using Inr r by (simp add: Grammar_init_def)
  next
    case s: (Inr s)
    let ?g0 = "g\<lparr>no_check_recognizers := False, start_symbol := s\<rparr>"
    have gi: "Grammar_init re st prods fpath recs start False = init_grammar re (?g0, st1)"
      using Inr r s by (simp add: Grammar_init_def)
    show ?thesis
    proof (cases s)
      case None
      then show ?thesis unfolding gi by (simp add: init_grammar_def)
    next
      case (Some start0)
      let ?g1 = "?g0\<lparr>nonterminals := [], terminals := [],
                     productions := Production_new AUGSYMBOL [start0, STOP] # productions ?g0\<rparr>"
      show ?thesis
      proof (cases "collect_grammar_symbols (?g1, st1)")
        case (Inl e)
        then show ?thesis unfolding gi using Some by (simp add: init_grammar_def Let_def)
      next
        case (Inr r2)
        obtain g2 st2 where r2: "r2 = (g2, st2)" by (cases r2)
        note f2 = collect_grammar_symbols_fields[OF Inr[unfolded r2]]
        have nc: "\<not> no_check_recognizers g2" and rec: "recognizers g2 = None"
          using f2 f by simp_all
        have "check_connect_recognizers (add_special_terminals g2, st2)
                = Inl (AttributeError ''recognizers'')"
          using rec
          by (simp add: check_connect_recognizers_def add_special_terminals_fields
              check_connect_loop_unset)
        then show ?thesis unfolding gi using Some Inr r2 nc
          by (simp add: init_grammar_def Let_def)
      qed
    qed
  qed
qed

lemma fix_keyword_terminals_grammar:
  "fix_keyword_terminals re (g, st) = Inr (g', st') \<Longrightarrow> g' = g"
  by (auto simp: fix_keyword_terminals_def split: option.splits recognizer.splits sum.splits)

lemma Grammar_init_success:
  assumes ok: "Grammar_init re st prods fpath recs start no_check = Inr (g, st')"
  obtains fp sbn0 r2t0 n0 s0 sbn r2t n ps rtt terms where
    "no_check" "fpath = Some fp"
    "collect_loop prods [] [] (n_objects st) = Inr (sbn0, r2t0, n0)"
    "determine_start_symbol prods start = Inr (Some s0)"
    "collect_loop (Production_new AUGSYMBOL [s0, STOP] # prods) [] [] n0 = Inr (sbn, r2t, n)"
    "resolve_loop (with_specials sbn) r2t (Production_new AUGSYMBOL [s0, STOP] # prods) []
        (initial_terminals sbn) = Inr (ps, rtt, terms)"
    "productions g = enumerate_loop 0 [] (pruned ps)"
    "symbols_by_name g = with_specials sbn"
    "terminals g = terms"
    "nonterminals g = py_set (filter (\<lambda>x. cls x = NonTerminal) (map snd sbn))"
    "start_symbol g = Some s0"
    "fix_keyword_terminals re (g, st\<lparr>n_objects := n\<rparr>) = Inr (g, st')"
proof -
  have nc: no_check
    using checking_never_succeeds[of re st prods fpath recs start] ok by (cases no_check) auto
  from ok obtain g0 st1 where p: "PGFile_init st prods fpath recs = Inr (g0, st1)"
    by (auto simp: Grammar_init_def split: sum.splits)
  note f = PGFile_init_fields[OF p]
  from f obtain r2t0 where c0: "collect_loop prods [] [] (n_objects st)
      = Inr (symbols_by_name g0, r2t0, n_objects st1)" by blast
  have st1: "st1 = st\<lparr>n_objects := n_objects st1\<rparr>"
    using p by (auto simp: PGFile_init_def split: option.splits sum.splits)
  from ok p obtain s where d: "determine_start_symbol prods start = Inr s"
    and ig: "init_grammar re (g0\<lparr>no_check_recognizers := no_check, start_symbol := s\<rparr>, st1) = Inr (g, st')"
    using f by (auto simp: Grammar_init_def split: sum.splits)
  let ?g0 = "g0\<lparr>no_check_recognizers := no_check, start_symbol := s\<rparr>"
  from ig obtain s0 where s: "s = Some s0"
    by (cases s) (auto simp: init_grammar_def)
  let ?aug = "Production_new AUGSYMBOL [s0, STOP]"
  let ?g1 = "?g0\<lparr>nonterminals := [], terminals := [],
                     productions := ?aug # productions ?g0\<rparr>"
  from ig s obtain g2 st2 where c: "collect_grammar_symbols (?g1, st1) = Inr (g2, st2)"
    by (auto simp: init_grammar_def Let_def split: sum.splits)
  note f2 = collect_grammar_symbols_fields[OF c]
  have nc2: "no_check_recognizers g2" using f2 nc by simp
  from ig s c nc2 obtain g4 st4 where
    r: "resolve_references (add_special_terminals g2, st2) = Inr (g4, st4)"
    and k: "fix_keyword_terminals re
              (enumerate_productions (prune_terminal_productions g4), st4) = Inr (g, st')"
    by (auto simp: init_grammar_def Let_def split: sum.splits)
  from r obtain ps rtt terms where
    rl: "resolve_loop (symbols_by_name (add_special_terminals g2))
           (recog_to_terminals (add_special_terminals g2))
           (productions (add_special_terminals g2)) [] (terminals (add_special_terminals g2))
         = Inr (ps, rtt, terms)"
    and g4: "g4 = (add_special_terminals g2)\<lparr>productions := ps, terminals := terms\<rparr>"
    and st4: "st4 = st2"
    by (auto simp: resolve_references_def split: sum.splits)
  have sb: "symbols_by_name (add_special_terminals g2) = with_specials (symbols_by_name g2)"
    and tm: "terminals (add_special_terminals g2) = initial_terminals (symbols_by_name g2)"
    using f2 by (simp_all add: add_special_terminals_def with_specials_def initial_terminals_def)
  have g: "g = enumerate_productions (prune_terminal_productions g4)"
    using fix_keyword_terminals_grammar[OF k] .
  have st2: "st2 = st\<lparr>n_objects := n_objects st2\<rparr>"
    using c st1 by (auto simp: collect_grammar_symbols_def split: sum.splits)
      (metis store.surjective store.update_convs(3))
  have pr: "productions g = enumerate_loop 0 [] (pruned ps)"
    unfolding g g4
    by (simp add: enumerate_productions_def prune_terminal_productions_def pruned_def Let_def)
  have flds: "symbols_by_name g = with_specials (symbols_by_name g2)" "terminals g = terms"
    "nonterminals g = py_set (filter (\<lambda>x. cls x = NonTerminal) (map snd (symbols_by_name g2)))"
    "start_symbol g = Some s0"
    unfolding g g4 using sb f2 s
    by (simp_all add: enumerate_productions_def prune_terminal_productions_def Let_def
        add_special_terminals_fields)
  have c2: "collect_loop (?aug # prods) [] [] (n_objects st1)
      = Inr (symbols_by_name g2, recog_to_terminals g2, n_objects st2)"
    using f2 f by simp
  have rl': "resolve_loop (with_specials (symbols_by_name g2)) (recog_to_terminals g2)
      (?aug # prods) [] (initial_terminals (symbols_by_name g2)) = Inr (ps, rtt, terms)"
    using rl sb tm f f2 by (simp add: add_special_terminals_fields)
  have k': "fix_keyword_terminals re (g, st\<lparr>n_objects := n_objects st2\<rparr>) = Inr (g, st')"
    using k g st4 st2 by simp
  show thesis
    using that[OF nc _ c0 _ c2 rl' pr flds k'] f d s by simp
qed

lemmas ev = Grammar_init_def PGFile_init_def init_grammar_def determine_start_symbol_def
  collect_grammar_symbols_def check_connect_recognizers_def resolve_references_def
  enumerate_productions_def prune_terminal_productions_def add_special_terminals_def
  fix_keyword_terminals_def get_terminal_def resolve_action_def
  py_set_def py_set_add_def py_in_def sym_hash_def py_eq_def name_def escape_def replace_char_def
  Production_new_def Production_init_def ProductionRHS_len_def ProductionRHS_getitem.simps
  list_getitem_def ASSOC_NONE_def DEFAULT_PRIORITY_def
  NonTerminal_new_def Terminal_new_def Reference_new_def AUGSYMBOL_def STOP_def EMPTY_def EOF_def
  SPECIAL_SYMBOL_NAMES_def RESERVED_SYMBOL_NAMES_def Let_def
  collect_choice_def resolve_choice_def
  no_re_def string_store_def module_store_def S_sym_def a_sym_def

lemma foldl_last_named:
  "foldl (\<lambda>found p. if name (symbol p) = nm then Some (symbol p) else found) init prods = Some s
   \<Longrightarrow> (\<exists>p \<in> set prods. name (symbol p) = nm \<and> s = symbol p) \<or> init = Some s"
  by (induction prods arbitrary: init) (auto split: if_splits)

lemma determine_start_by_name:
  "nm \<noteq> [] \<Longrightarrow> determine_start_symbol prods (Start_name nm) = Inr (Some s) \<Longrightarrow>
   \<exists>p \<in> set prods. name (symbol p) = nm \<and> s = symbol p"
  using foldl_last_named[of nm None prods s] by (auto simp: determine_start_symbol_def)

lemma determine_start_default:
  "determine_start_symbol prods Start_None = Inr (Some s) \<Longrightarrow> prods \<noteq> [] \<and> s = symbol (hd prods)"
  by (auto simp: determine_start_symbol_def split: list.splits)

lemma determine_start_empty_name:
  "determine_start_symbol prods (Start_name []) = determine_start_symbol prods Start_None"
  by (simp add: determine_start_symbol_def)

lemma Grammar_init_empty_name:
  "Grammar_init re st prods fpath recs (Start_name []) no_check
   = Grammar_init re st prods fpath recs Start_None no_check"
  unfolding Grammar_init_def determine_start_empty_name ..

text \<open>
  C8 (as amended: for a name that is not empty). If construction with the start symbol
  given by a non-empty name succeeds, \<open>start_symbol\<close> is the left-hand side of a
  production of that name; if no production has the name, construction fails; with no
  start symbol given, that is \<open>None\<close> or the empty string, \<open>start_symbol\<close> is the
  left-hand side of the first production.
\<close>

theorem start_symbol_by_name_or_default:
  "(nm \<noteq> [] \<and> Grammar_init re st prods fpath recs (Start_name nm) no_check = Inr (g, st')
      \<longrightarrow> (\<exists>p \<in> set prods. name (symbol p) = nm \<and> start_symbol g = Some (symbol p)))
   \<and> (nm \<noteq> [] \<and> (\<forall>p \<in> set prods. name (symbol p) \<noteq> nm)
      \<longrightarrow> isl (Grammar_init re st prods fpath recs (Start_name nm) no_check))
   \<and> ((start = Start_None \<or> start = Start_name [])
        \<and> Grammar_init re st prods fpath recs start no_check = Inr (g0, st0)
      \<longrightarrow> prods \<noteq> [] \<and> start_symbol g0 = Some (symbol (hd prods)))"
proof -
  have a: "\<exists>p \<in> set prods. name (symbol p) = nm \<and> start_symbol g = Some (symbol p)"
    if "nm \<noteq> []" "Grammar_init re st prods fpath recs (Start_name nm) no_check = Inr (g, st')"
    for g st'
    using that(2)
  proof (rule Grammar_init_success)
    fix s0 assume "determine_start_symbol prods (Start_name nm) = Inr (Some s0)"
      and "start_symbol g = Some s0"
    then show ?thesis using determine_start_by_name[OF that(1)] by blast
  qed
  have b: "isl (Grammar_init re st prods fpath recs (Start_name nm) no_check)"
    if "nm \<noteq> []" "\<forall>p \<in> set prods. name (symbol p) \<noteq> nm"
  proof (cases "Grammar_init re st prods fpath recs (Start_name nm) no_check")
    case (Inl e)
    then show ?thesis by simp
  next
    case (Inr r)
    obtain g1 st1 where "r = (g1, st1)" by (cases r)
    with Inr a[OF that(1), of g1 st1] that(2) show ?thesis by blast
  qed
  have c: "prods \<noteq> [] \<and> start_symbol g0 = Some (symbol (hd prods))"
    if "start = Start_None \<or> start = Start_name []"
      and "Grammar_init re st prods fpath recs start no_check = Inr (g0, st0)"
  proof -
    from that have "Grammar_init re st prods fpath recs Start_None no_check = Inr (g0, st0)"
      by (auto simp: Grammar_init_empty_name)
    then show ?thesis
    proof (rule Grammar_init_success)
      fix s0 assume "determine_start_symbol prods Start_None = Inr (Some s0)"
        and "start_symbol g0 = Some s0"
      then show ?thesis using determine_start_default by blast
    qed
  qed
  show ?thesis using a b c by blast
qed

text \<open>
  C8 as stated fails for the empty name: \<^verbatim>\<open>if start_symbol\<close> takes the empty string as
  "not given", so construction succeeds with the default start symbol \<open>S\<close> although no
  production is named by the empty string.
\<close>

theorem empty_start_name_takes_default:
  "\<not> isl (Grammar_init no_re string_store [Production_new S_sym [a_sym]] (Some ''g.pg'')
            None (Start_name '''') True)
   \<and> name (symbol (Production_new S_sym [a_sym])) \<noteq> ''''
   \<and> start_symbol (fst (projr (Grammar_init no_re string_store [Production_new S_sym [a_sym]]
        (Some ''g.pg'') None (Start_name '''') True))) = Some S_sym"
  by (simp add: ev)

theorem start_symbol_by_name_or_default_witness:
  "''S'' \<noteq> []
   \<and> \<not> isl (Grammar_init no_re string_store [Production_new S_sym [a_sym]]
          (Some ''g.pg'') None (Start_name ''S'') True)
   \<and> name (symbol (Production_new S_sym [a_sym])) = ''S''
   \<and> start_symbol (fst (projr (Grammar_init no_re string_store
             [Production_new S_sym [a_sym]] (Some ''g.pg'') None (Start_name ''S'') True)))
        = Some (symbol (Production_new S_sym [a_sym]))
   \<and> ''X'' \<noteq> [] \<and> name (symbol (Production_new S_sym [a_sym])) \<noteq> ''X''
   \<and> isl (Grammar_init no_re string_store [Production_new S_sym [a_sym]]
          (Some ''g.pg'') None (Start_name ''X'') True)
   \<and> \<not> isl (Grammar_init no_re string_store [Production_new S_sym [a_sym]]
          (Some ''g.pg'') None Start_None True)
   \<and> start_symbol (fst (projr (Grammar_init no_re string_store
             [Production_new S_sym [a_sym]] (Some ''g.pg'') None Start_None True)))
        = Some (symbol (hd [Production_new S_sym [a_sym]]))
   \<and> \<not> isl (Grammar_init no_re string_store [Production_new S_sym [a_sym]]
          (Some ''g.pg'') None (Start_name []) True)
   \<and> start_symbol (fst (projr (Grammar_init no_re string_store
             [Production_new S_sym [a_sym]] (Some ''g.pg'') None (Start_name []) True)))
        = Some (symbol (hd [Production_new S_sym [a_sym]]))"
proof -
  let ?ps = "[Production_new S_sym [a_sym]]"
  let ?G = "\<lambda>start. Grammar_init no_re string_store ?ps (Some ''g.pg'') None start True"
  have s1: "\<not> isl (?G (Start_name ''S''))" by (simp add: ev)
  then obtain g st' where r1: "?G (Start_name ''S'') = Inr (g, st')"
    by (cases "?G (Start_name ''S'')") auto
  have s3: "\<not> isl (?G Start_None)" by (simp add: ev)
  then obtain g0 st0 where r3: "?G Start_None = Inr (g0, st0)"
    by (cases "?G Start_None") auto
  have s4: "\<not> isl (?G (Start_name []))" by (simp add: ev)
  then obtain g4 st4 where r4: "?G (Start_name []) = Inr (g4, st4)"
    by (cases "?G (Start_name [])") auto
  have h2: "\<forall>p \<in> set ?ps. name (symbol p) \<noteq> ''X''" by (simp add: ev)
  note th = start_symbol_by_name_or_default[where nm = "''S''" and re = no_re and st = string_store
      and prods = ?ps and fpath = "Some ''g.pg''" and recs = None and no_check = True
      and g = g and st' = st' and ?g0.0 = g0 and ?st0.0 = st0 and start = Start_None]
  note th2 = start_symbol_by_name_or_default[where nm = "''X''" and re = no_re and st = string_store
      and prods = ?ps and fpath = "Some ''g.pg''" and recs = None and no_check = True]
  note th4 = start_symbol_by_name_or_default[where re = no_re and st = string_store
      and prods = ?ps and fpath = "Some ''g.pg''" and recs = None and no_check = True
      and ?g0.0 = g4 and ?st0.0 = st4 and start = "Start_name []"]
  from th r1 have c1: "name (symbol (Production_new S_sym [a_sym])) = ''S''
      \<and> start_symbol g = Some (symbol (Production_new S_sym [a_sym]))"
    by simp
  from th r3 have c3: "start_symbol g0 = Some (symbol (hd ?ps))" by simp
  from th2 h2 have c2: "isl (?G (Start_name ''X''))" by simp
  from th4 r4 have c4: "start_symbol g4 = Some (symbol (hd ?ps))" by simp
  show ?thesis using s1 s3 s4 h2 c1 c2 c3 c4 by (simp add: r1 r3 r4)
qed

text \<open>
  C5. With recognizer checking enabled, a terminal named in the recognizer map should
  get the override. No code assigns \<open>self.recognizers\<close>: \<open>PGFile.__init__\<close> drops
  its \<open>recognizers\<close> argument. So \<open>_check_connect_recognizers\<close> fails at its first
  terminal with an \<open>AttributeError\<close>, here for the grammar \<open>S: "a";\<close> with an override
  for \<open>a\<close>; lemma \<open>checking_never_succeeds\<close> shows that no construction with the
  check enabled succeeds.
\<close>

theorem recognizers_attribute_never_set:
  "Grammar_init no_re string_store [Production_new S_sym [a_sym]] (Some ''g.pg'')
      (Some [(''a'', StringRecognizer ''a'' False)]) Start_None False
   = Inl (AttributeError ''recognizers'')"
  by (simp add: ev)

lemma set_update_subset: "set (AList.update k v al) \<subseteq> insert (k, v) (set al)"
  by (induction al) auto

lemma dom_update: "fst ` set (AList.update k v al) = insert k (fst ` set al)"
  by (induction al) auto

lemma keyed_update: "keyed al \<Longrightarrow> name v = k \<Longrightarrow> cls v \<noteq> Reference \<Longrightarrow> keyed (AList.update k v al)"
  unfolding keyed_def using set_update_subset[of k v al] by fastforce

lemma keyed_Nil: "keyed []"
  by (simp add: keyed_def)

lemma keyed_map_of: "keyed al \<Longrightarrow> map_of al k = Some s \<Longrightarrow> name s = k \<and> cls s \<noteq> Reference"
  unfolding keyed_def by (fastforce dest: map_of_SomeD)

lemma resolve_action_not_Reference: "resolve_action old new = Inr u \<Longrightarrow> cls new \<noteq> Reference"
  by (auto simp: resolve_action_def split: if_splits)

lemma replace_char_absent: "c \<notin> set s \<Longrightarrow> replace_char c r s = s"
  by (induction s) (auto simp: replace_char_def)

lemma replace_char_removes: "c \<notin> set r \<Longrightarrow> c \<notin> set (replace_char c r s)"
  by (induction s) (auto simp: replace_char_def)

lemma replace_char_keeps_absent: "d \<notin> set s \<Longrightarrow> d \<notin> set r \<Longrightarrow> d \<notin> set (replace_char c r s)"
  by (induction s) (auto simp: replace_char_def)

lemma escape_idem: "escape (escape x) = escape x"
proof -
  let ?a = "replace_char (CHR 0x0A) [CHR 0x5C, CHR ''n''] x"
  have n1: "CHR 0x0A \<notin> set ?a" by (rule replace_char_removes) simp
  have n2: "CHR 0x0A \<notin> set (escape x)"
    unfolding escape_def using n1 by (rule replace_char_keeps_absent) simp
  have t2: "CHR 0x09 \<notin> set (escape x)"
    unfolding escape_def by (rule replace_char_removes) simp
  show ?thesis
    using n2 t2 by (simp add: escape_def[of "escape x"] replace_char_absent)
qed

lemma escape_name: "cls s \<noteq> Reference \<Longrightarrow> escape (name s) = name s"
  by (simp add: name_def escape_idem)

lemma name_promoted:
  "cls s \<noteq> Reference \<Longrightarrow> name (NonTerminal_new i (name s)) = name s"
  by (simp add: escape_name)

declare collect_loop.simps(2) [simp del]

lemma collect_loop_Cons:
  "collect_loop (p # ps) sbn r2t n =
     (case collect_choice p sbn r2t n of
        Inl e \<Rightarrow> Inl e
      | Inr (new_symbol, r2t', n') \<Rightarrow>
          (case resolve_action (symbol p) new_symbol of
             Inl e \<Rightarrow> Inl e
           | Inr _ \<Rightarrow> collect_loop ps (AList.update (name new_symbol) new_symbol sbn) r2t' n'))"
  by (simp add: collect_loop.simps(2))

lemma collect_choice_name:
  assumes "collect_choice p sbn r2t n = Inr (new, r2t', n')" and "keyed sbn"
    and "resolve_action (symbol p) new = Inr u"
  shows "name new = name (symbol p) \<and> cls new \<noteq> Reference"
proof -
  have nr: "cls new \<noteq> Reference" using assms(3) by (rule resolve_action_not_Reference)
  show ?thesis
  proof (cases "cls (symbol p) = Terminal")
    case False
    with assms(1) nr show ?thesis by (simp add: collect_choice_def)
  next
    case True
    show ?thesis
    proof (cases "map_of sbn (name (symbol p))")
      case None
      with True assms(1) nr show ?thesis
        by (auto simp: collect_choice_def split: if_splits option.splits)
    next
      case (Some prev)
      note k = keyed_map_of[OF assms(2) Some]
      show ?thesis
      proof (cases "cls prev = Terminal")
        case t: True
        with True Some assms(1) have "new = NonTerminal_new (Allocated n) (name (symbol p))"
          by (simp add: collect_choice_def Let_def)
        then show ?thesis using True nr by (simp add: escape_name)
      next
        case False
        with True Some assms(1) have "new = prev" by (simp add: collect_choice_def)
        then show ?thesis using k by simp
      qed
    qed
  qed
qed

lemma collect_choice_NonTerminal:
  assumes "collect_choice p sbn r2t n = Inr (new, r2t', n')" and "keyed sbn"
    and "resolve_action (symbol p) new = Inr u"
    and "map_of sbn (name new) = Some s" "cls s = NonTerminal"
  shows "cls new = NonTerminal"
proof -
  note nm = collect_choice_name[OF assms(1,2,3)]
  show ?thesis
  proof (cases "cls (symbol p) = Terminal")
    case False
    with assms(1) have "new = symbol p" by (simp add: collect_choice_def)
    with False nm show ?thesis by (cases "cls new") auto
  next
    case True
    from assms(4) nm have look: "map_of sbn (name (symbol p)) = Some s" by simp
    with True assms(1,5) have "new = s"
      by (simp add: collect_choice_def)
    then show ?thesis using assms(5) by simp
  qed
qed

lemma collect_loop_inv:
  assumes "collect_loop ps sbn r2t n = Inr (sbn', r2t', n')" and "keyed sbn"
  shows "keyed sbn'
     \<and> fst ` set sbn' = fst ` set sbn \<union> (\<lambda>p. name (symbol p)) ` set ps
     \<and> (\<forall>k s. map_of sbn k = Some s \<and> cls s = NonTerminal
            \<longrightarrow> (\<exists>s'. map_of sbn' k = Some s' \<and> cls s' = NonTerminal))"
  using assms
proof (induction ps arbitrary: sbn r2t n)
  case Nil
  then show ?case by simp
next
  case (Cons p ps)
  from Cons.prems(1) obtain new r2t1 n1 u where
    ch: "collect_choice p sbn r2t n = Inr (new, r2t1, n1)"
    and ra: "resolve_action (symbol p) new = Inr u"
    and rest: "collect_loop ps (AList.update (name new) new sbn) r2t1 n1 = Inr (sbn', r2t', n')"
    by (auto simp: collect_loop_Cons split: sum.splits prod.splits)
  note nm = collect_choice_name[OF ch Cons.prems(2) ra]
  have k1: "keyed (AList.update (name new) new sbn)"
    using Cons.prems(2) nm by (intro keyed_update) simp_all
  note ih = Cons.IH[OF rest k1]
  have dom1: "fst ` set (AList.update (name new) new sbn) = insert (name (symbol p)) (fst ` set sbn)"
    using nm by (simp add: dom_update)
  have nt: "\<exists>s'. map_of sbn' k = Some s' \<and> cls s' = NonTerminal"
    if "map_of sbn k = Some s" "cls s = NonTerminal" for k s
  proof (cases "k = name new")
    case True
    with that have "cls new = NonTerminal"
      using collect_choice_NonTerminal[OF ch Cons.prems(2) ra] by blast
    moreover have "map_of (AList.update (name new) new sbn) k = Some new"
      using True by (simp add: update_conv')
    ultimately show ?thesis using ih by blast
  next
    case False
    then have "map_of (AList.update (name new) new sbn) k = Some s"
      using that(1) by (simp add: update_conv')
    with that(2) show ?thesis using ih by blast
  qed
  show ?case using ih dom1 nt by auto
qed

declare resolve_rhs.simps(2) [simp del]
declare resolve_loop.simps(2) [simp del]

lemma resolve_rhs_Cons:
  "resolve_rhs sbn r2t psym (ref # refs) rec_to_term terms =
     (case resolve_choice sbn r2t psym ref rec_to_term terms of
        Inl e \<Rightarrow> Inl e
      | Inr (ref_sym, rec_to_term', terms') \<Rightarrow>
          (case resolve_rhs sbn r2t psym refs rec_to_term' terms' of
             Inl e \<Rightarrow> Inl e
           | Inr (rest, rec_to_term'', terms'') \<Rightarrow> Inr (ref_sym # rest, rec_to_term'', terms'')))"
  by (simp add: resolve_rhs.simps(2))

lemma unified_mono:
  "unified sbn rtt x \<Longrightarrow> map_of rtt \<subseteq>\<^sub>m map_of rtt' \<Longrightarrow> unified sbn rtt' x"
  unfolding unified_def map_le_def by (metis domI)

lemma py_in_name:
  assumes "py_in x terms" and "cls x \<noteq> Reference"
  shows "\<exists>y \<in> set terms. name y = name x"
proof -
  from assms(1) obtain y where y: "y \<in> set terms" "sym_hash y = sym_hash x"
    unfolding py_in_def by blast
  from y(2) assms(2) have "cls y \<noteq> Reference \<and> init_name y = init_name x"
    by (auto simp: sym_hash_def split: if_splits)
  then have "name y = name x" using assms(2) by (simp add: name_def)
  with y(1) show ?thesis by blast
qed

lemma map_le_update_absent:
  "map_of al k = None \<Longrightarrow> map_of al \<subseteq>\<^sub>m map_of (AList.update k v al)"
  by (auto simp: map_le_def update_conv')

lemma resolve_choice_inv:
  assumes r: "resolve_choice sbn r2t psym ref rtt terms = Inr (x, rtt', terms')"
    and inv: "res_inv sbn rtt terms" and ks: "keyed sbn"
  shows "res_inv sbn rtt' terms' \<and> map_of rtt \<subseteq>\<^sub>m map_of rtt' \<and> set terms \<subseteq> set terms'
         \<and> set terms' \<subseteq> insert ref (set terms)
         \<and> name x = name ref \<and> unified sbn rtt' x
         \<and> (map_of sbn (name ref) = Some x \<or> (map_of sbn (name ref) = None \<and> cls ref = Terminal
              \<and> (map_of rtt (name ref) = Some x \<or> (map_of rtt (name ref) = None \<and> x = ref))))"
proof (cases "map_of sbn (name ref)")
  case (Some s)
  with r have e: "x = s" "rtt' = rtt" "terms' = terms" by (simp_all add: resolve_choice_def)
  from keyed_map_of[OF ks Some] have "name s = name ref" by simp
  then show ?thesis using e Some inv by (auto simp: unified_def)
next
  case None
  with r have t: "cls ref = Terminal"
    by (auto simp: resolve_choice_def split: option.splits if_splits)
  from inv have kr: "keyed rtt" by (simp add: res_inv_def)
  show ?thesis
  proof (cases "map_of rtt (name ref)")
    case (Some s)
    with None r t have e: "x = s" "rtt' = rtt" "terms' = terms"
      by (auto simp: resolve_choice_def split: option.splits if_splits)
    from keyed_map_of[OF kr Some] have n: "name s = name ref" by simp
    from map_of_SomeD[OF Some] inv have "cls s = Terminal"
      unfolding res_inv_def by fastforce
    then have "unified sbn rtt s" using n None Some by (simp add: unified_def)
    then show ?thesis using e n inv None Some t by auto
  next
    case n2: None
    with None r t have e: "x = ref" "rtt' = AList.update (name ref) ref rtt"
      "terms' = py_set_add ref terms"
      by (auto simp: resolve_choice_def split: option.splits if_splits)
    have le: "map_of rtt \<subseteq>\<^sub>m map_of rtt'" unfolding e by (rule map_le_update_absent[OF n2])
    have nr: "cls ref \<noteq> Reference" using t by simp
    have not_in: "\<not> py_in ref terms"
    proof
      assume "py_in ref terms"
      from py_in_name[OF this nr] obtain y where y: "y \<in> set terms" "name y = name ref" by blast
      from inv y(1) have "unified sbn rtt y" by (simp add: res_inv_def)
      with y(2) None n2 show False by (simp add: unified_def)
    qed
    then have tm: "set terms' = insert ref (set terms)" by (auto simp: e py_set_add_def)
    have look: "map_of rtt' (name ref) = Some ref" by (simp add: e update_conv')
    have ux: "unified sbn rtt' ref" using None look t by (simp add: unified_def)
    have k': "keyed rtt'" unfolding e using kr nr by (intro keyed_update) simp_all
    have ent: "\<forall>e \<in> set rtt'. map_of sbn (fst e) = None \<and> cls (snd e) = Terminal \<and> snd e \<in> set terms'"
    proof
      fix en assume "en \<in> set rtt'"
      then have "en = (name ref, ref) \<or> en \<in> set rtt"
        using set_update_subset[of "name ref" ref rtt] e by auto
      then show "map_of sbn (fst en) = None \<and> cls (snd en) = Terminal \<and> snd en \<in> set terms'"
        using None t tm inv unfolding res_inv_def by auto
    qed
    have un: "\<forall>t \<in> set terms'. unified sbn rtt' t"
      using tm ux inv unified_mono[OF _ le] unfolding res_inv_def by auto
    have "res_inv sbn rtt' terms'" unfolding res_inv_def using k' ent un by blast
    then show ?thesis using le tm ux e None n2 t by auto
  qed
qed

lemma resolve_rhs_inv:
  assumes "resolve_rhs sbn r2t psym refs rtt terms = Inr (rhs', rtt', terms')"
    and "res_inv sbn rtt terms" and "keyed sbn"
  shows "res_inv sbn rtt' terms' \<and> map_of rtt \<subseteq>\<^sub>m map_of rtt' \<and> set terms \<subseteq> set terms'
         \<and> map name rhs' = map name refs \<and> (\<forall>x \<in> set rhs'. unified sbn rtt' x)"
  using assms
proof (induction refs arbitrary: rtt terms rhs')
  case Nil
  then show ?case by simp
next
  case (Cons ref refs)
  from Cons.prems(1) obtain x rtt1 terms1 rest where
    c: "resolve_choice sbn r2t psym ref rtt terms = Inr (x, rtt1, terms1)"
    and r: "resolve_rhs sbn r2t psym refs rtt1 terms1 = Inr (rest, rtt', terms')"
    and rhs': "rhs' = x # rest"
    by (auto simp: resolve_rhs_Cons split: sum.splits prod.splits)
  note ci = resolve_choice_inv[OF c Cons.prems(2,3)]
  from ci have i1: "res_inv sbn rtt1 terms1" by blast
  note ih = Cons.IH[OF r i1 Cons.prems(3)]
  have le: "map_of rtt \<subseteq>\<^sub>m map_of rtt'" using ci ih map_le_trans by blast
  have ux: "unified sbn rtt' x" using ci ih unified_mono by blast
  show ?case using ci ih le ux rhs' by auto
qed

lemma resolve_loop_Cons:
  "resolve_loop sbn r2t (p # ps) rtt terms = Inr (ps', rtt', terms') \<Longrightarrow>
   \<exists>rhs1 rtt1 terms1 rest.
     resolve_rhs sbn r2t (case map_of sbn (name (symbol p)) of Some s \<Rightarrow> s | None \<Rightarrow> symbol p)
        (rhs p) rtt terms = Inr (rhs1, rtt1, terms1)
     \<and> resolve_loop sbn r2t ps rtt1 terms1 = Inr (rest, rtt', terms')
     \<and> ps' = p\<lparr>symbol := (case map_of sbn (name (symbol p)) of Some s \<Rightarrow> s | None \<Rightarrow> symbol p),
               rhs := rhs1\<rparr> # rest"
  by (auto simp: resolve_loop.simps(2) Let_def split: sum.splits prod.splits)

lemma resolve_loop_inv:
  assumes "resolve_loop sbn r2t ps rtt terms = Inr (ps', rtt', terms')"
    and "res_inv sbn rtt terms" and "keyed sbn"
  shows "res_inv sbn rtt' terms' \<and> map_of rtt \<subseteq>\<^sub>m map_of rtt' \<and> set terms \<subseteq> set terms'
         \<and> (\<forall>p' \<in> set ps'. \<forall>x \<in> set (rhs p'). unified sbn rtt' x)
         \<and> (\<forall>p' \<in> set ps'. \<exists>p \<in> set ps.
               symbol p' = (case map_of sbn (name (symbol p)) of Some s \<Rightarrow> s | None \<Rightarrow> symbol p))"
  using assms
proof (induction ps arbitrary: rtt terms ps')
  case Nil
  then show ?case by simp
next
  case (Cons p ps)
  let ?psym = "case map_of sbn (name (symbol p)) of Some s \<Rightarrow> s | None \<Rightarrow> symbol p"
  from resolve_loop_Cons[OF Cons.prems(1)] obtain rhs1 rtt1 terms1 rest where
    a: "resolve_rhs sbn r2t ?psym (rhs p) rtt terms = Inr (rhs1, rtt1, terms1)"
    and b: "resolve_loop sbn r2t ps rtt1 terms1 = Inr (rest, rtt', terms')"
    and c: "ps' = p\<lparr>symbol := ?psym, rhs := rhs1\<rparr> # rest"
    by blast
  note ra = resolve_rhs_inv[OF a Cons.prems(2,3)]
  from ra have i1: "res_inv sbn rtt1 terms1" by blast
  note ih = Cons.IH[OF b i1 Cons.prems(3)]
  have le: "map_of rtt \<subseteq>\<^sub>m map_of rtt'" using ra ih map_le_trans by blast
  have u1: "\<forall>x \<in> set rhs1. unified sbn rtt' x" using ra ih unified_mono by blast
  show ?case using ra ih le u1 c by auto
qed

lemma length_enumerate_loop [simp]: "length (enumerate_loop k d xs) = length xs"
  by (induction xs arbitrary: k d) simp_all

lemma nth_enumerate_loop:
  "i < length xs \<Longrightarrow>
   prod_id (enumerate_loop k d xs ! i) = Some (k + i)
   \<and> symbol (enumerate_loop k d xs ! i) = symbol (xs ! i)
   \<and> rhs (enumerate_loop k d xs ! i) = rhs (xs ! i)"
proof (induction xs arbitrary: k d i)
  case Nil
  then show ?case by simp
next
  case (Cons x xs)
  then show ?case by (cases i) simp_all
qed

lemma set_pruned: "set (pruned ps) \<subseteq> set ps"
  by (auto simp: pruned_def)

lemma pruned_head:
  "cls (symbol p) = NonTerminal \<Longrightarrow> \<exists>rest. pruned (p # ps) = p # rest"
  by (simp add: pruned_def)

lemma name_specials:
  "name EMPTY = ''EMPTY''" "name EOF = ''EOF''" "name STOP = ''STOP''"
  "name AUGSYMBOL = [CHR ''S'', CHR 0x27]"
  by (simp_all add: name_def EMPTY_def EOF_def STOP_def AUGSYMBOL_def Terminal_new_def
      NonTerminal_new_def escape_def replace_char_def)

lemma cls_specials:
  "cls EMPTY = Terminal" "cls EOF = Terminal" "cls STOP = Terminal" "cls AUGSYMBOL = NonTerminal"
  by (simp_all add: EMPTY_def EOF_def STOP_def AUGSYMBOL_def Terminal_new_def NonTerminal_new_def)

lemma keyed_with_specials: "keyed sbn \<Longrightarrow> keyed (with_specials sbn)"
  unfolding with_specials_def
  by (intro keyed_update) (simp_all add: name_specials cls_specials)

lemma map_of_with_specials:
  "map_of (with_specials sbn) k =
     (if k = ''STOP'' then Some STOP else if k = ''EOF'' then Some EOF
      else if k = ''EMPTY'' then Some EMPTY else map_of sbn k)"
  by (simp add: with_specials_def update_conv')

lemma dom_with_specials: "fst ` set sbn \<subseteq> fst ` set (with_specials sbn)"
  by (auto simp: with_specials_def dom_update)

lemma res_inv_initial:
  assumes "\<forall>t \<in> set terms. map_of sbn (name t) = Some t"
  shows "res_inv sbn [] terms"
  using assms by (simp add: res_inv_def keyed_Nil unified_def)

lemma Production_new_fields:
  "symbol (Production_new s r) = s"
  "rhs (Production_new s r) = (if ProductionRHS_len r \<noteq> 0 then r else [])"
  by (simp_all add: Production_new_def Production_init_def)

lemma STOP_not_EMPTY: "\<not> py_eq STOP EMPTY"
  by (simp add: py_eq_def name_specials) (simp add: STOP_def EMPTY_def Terminal_new_def)

lemma rhs_augmented: "rhs (Production_new AUGSYMBOL [s, STOP]) = [s, STOP]"
  using STOP_not_EMPTY by (simp add: Production_new_fields ProductionRHS_len_def)

lemma resolve_rhs_start_STOP:
  assumes r: "resolve_rhs sbn r2t psym [s0, STOP] [] terms = Inr (rhs', rtt', terms')"
    and ks: "keyed sbn" and st: "map_of sbn ''STOP'' = Some STOP"
  shows "\<exists>s1. rhs' = [s1, STOP] \<and> name s1 = name s0
            \<and> (map_of sbn (name s0) = Some s1 \<or> (map_of sbn (name s0) = None \<and> s1 = s0))
            \<and> cls s1 \<noteq> Reference"
proof -
  from r obtain s1 rtt1 terms1 rest where
    c: "resolve_choice sbn r2t psym s0 [] terms = Inr (s1, rtt1, terms1)"
    and r2: "resolve_rhs sbn r2t psym [STOP] rtt1 terms1 = Inr (rest, rtt', terms')"
    and e: "rhs' = s1 # rest"
    by (auto simp: resolve_rhs_Cons split: sum.splits prod.splits)
  from r2 st have rest: "rest = [STOP]"
    by (auto simp: resolve_rhs_Cons resolve_choice_def name_specials split: sum.splits prod.splits)
  have s1: "name s1 = name s0
      \<and> (map_of sbn (name s0) = Some s1 \<or> (map_of sbn (name s0) = None \<and> s1 = s0))
      \<and> cls s1 \<noteq> Reference"
  proof (cases "map_of sbn (name s0)")
    case (Some s)
    with c have "s1 = s" by (simp add: resolve_choice_def)
    with Some keyed_map_of[OF ks Some] show ?thesis by simp
  next
    case None
    with c have "s1 = s0 \<and> cls s0 = Terminal"
      by (auto simp: resolve_choice_def split: option.splits if_splits)
    with None show ?thesis by simp
  qed
  show ?thesis using e rest s1 by blast
qed

text \<open>
  C2. After every successful construction the first production has \<open>prod_id\<close> 0
  and is the augmented production: its left-hand side is the non-terminal named
  \<open>S'\<close>, its right-hand side is \<open>[s, STOP]\<close>, where \<open>s\<close> equals the grammar's
  start symbol (Python's \<open>==\<close>) and is the instance the construction unified the start
  symbol's name to; and every production has its list position as \<open>prod_id\<close>, so the
  ids strictly increase along the list.
\<close>

theorem augmented_production_first:
  assumes ok: "Grammar_init re st prods fpath recs start no_check = Inr (g, st')"
  shows "\<exists>p0 rest s st0.
           productions g = p0 # rest \<and> prod_id p0 = Some 0
           \<and> name (symbol p0) = [CHR ''S'', CHR 0x27] \<and> cls (symbol p0) = NonTerminal
           \<and> rhs p0 = [s, STOP]
           \<and> start_symbol g = Some st0 \<and> py_eq s st0
           \<and> (map_of (symbols_by_name g) (name st0) = Some s
                \<or> (map_of (symbols_by_name g) (name st0) = None \<and> s = st0))
           \<and> (\<forall>i < length (productions g). prod_id (productions g ! i) = Some i)"
  using ok
proof (rule Grammar_init_success)
  fix fp sbn0 r2t0 n0 s0 sbn r2t n ps rtt terms
  let ?aug = "Production_new AUGSYMBOL [s0, STOP]"
  assume c: "collect_loop (?aug # prods) [] [] n0 = Inr (sbn, r2t, n)"
    and r: "resolve_loop (with_specials sbn) r2t (?aug # prods) [] (initial_terminals sbn)
              = Inr (ps, rtt, terms)"
    and pg: "productions g = enumerate_loop 0 [] (pruned ps)"
    and sg: "symbols_by_name g = with_specials sbn"
    and ss: "start_symbol g = Some s0"
  \<comment> \<open>the first step of the collection registers \<open>S'\<close> as a non-terminal\<close>
  from c obtain u where c1: "collect_loop prods [(name AUGSYMBOL, AUGSYMBOL)] [] n0 = Inr (sbn, r2t, n)"
    by (auto simp: collect_loop_Cons collect_choice_def Production_new_fields cls_specials
        split: sum.splits)
  have k0: "keyed [(name AUGSYMBOL, AUGSYMBOL)]" by (simp add: keyed_def cls_specials)
  note ci = collect_loop_inv[OF c1 k0]
  from ci have ks: "keyed sbn" by blast
  have "map_of [(name AUGSYMBOL, AUGSYMBOL)] (name AUGSYMBOL) = Some AUGSYMBOL
        \<and> cls AUGSYMBOL = NonTerminal"
    by (simp add: cls_specials)
  with ci obtain a where a: "map_of sbn (name AUGSYMBOL) = Some a" "cls a = NonTerminal"
    by blast
  have ksp: "keyed (with_specials sbn)" using ks by (rule keyed_with_specials)
  have a': "map_of (with_specials sbn) (name AUGSYMBOL) = Some a"
    using a(1) by (simp add: map_of_with_specials name_specials)
  have na: "name a = [CHR ''S'', CHR 0x27]"
    using keyed_map_of[OF ks a(1)] by (simp add: name_specials)
  \<comment> \<open>the first production after resolution\<close>
  from resolve_loop_Cons[OF r] a' obtain rhs1 rtt1 terms1 rest where
    rr: "resolve_rhs (with_specials sbn) r2t a [s0, STOP] [] (initial_terminals sbn)
           = Inr (rhs1, rtt1, terms1)"
    and ps: "ps = ?aug\<lparr>symbol := a, rhs := rhs1\<rparr> # rest"
    by (auto simp: Production_new_fields(1) rhs_augmented)
  have stp: "map_of (with_specials sbn) ''STOP'' = Some STOP" by (simp add: map_of_with_specials)
  from resolve_rhs_start_STOP[OF rr ksp stp] obtain s1 where
    s1: "rhs1 = [s1, STOP]" "name s1 = name s0"
      "map_of (with_specials sbn) (name s0) = Some s1
        \<or> (map_of (with_specials sbn) (name s0) = None \<and> s1 = s0)"
      "cls s1 \<noteq> Reference"
    by blast
  let ?p0 = "?aug\<lparr>symbol := a, rhs := rhs1\<rparr>"
  from pruned_head[of ?p0 rest] a(2) ps obtain rest' where pr: "pruned ps = ?p0 # rest'"
    by auto
  have ids: "\<forall>i < length (productions g). prod_id (productions g ! i) = Some i"
    unfolding pg using nth_enumerate_loop[of _ "pruned ps" 0 "[]"] by simp
  have hd0: "productions g ! 0 = hd (productions g)" "productions g \<noteq> []"
    unfolding pg pr by simp_all
  from nth_enumerate_loop[of 0 "pruned ps" 0 "[]"] pr
  have h: "prod_id (productions g ! 0) = Some 0" "symbol (productions g ! 0) = a"
    "rhs (productions g ! 0) = rhs1"
    unfolding pg by simp_all
  obtain p0 rest0 where pl: "productions g = p0 # rest0" using hd0(2) by (cases "productions g") auto
  with h have h0: "prod_id p0 = Some 0" "symbol p0 = a" "rhs p0 = rhs1" by simp_all
  have pe: "py_eq s1 s0" using s1(2,4) by (simp add: py_eq_def)
  show ?thesis
    using pl h0 na a(2) s1 ss sg pe ids by auto
qed

lemmas ev_loops = ev collect_loop.simps resolve_rhs.simps resolve_loop.simps

theorem augmented_production_first_witness:
  "\<not> isl (Grammar_init no_re string_store [Production_new S_sym [a_sym]] (Some ''g.pg'')
            None Start_None True)
   \<and> prod_id (hd (productions (fst (projr (Grammar_init no_re string_store
         [Production_new S_sym [a_sym]] (Some ''g.pg'') None Start_None True))))) = Some 0
   \<and> name (symbol (hd (productions (fst (projr (Grammar_init no_re string_store
         [Production_new S_sym [a_sym]] (Some ''g.pg'') None Start_None True))))))
        = [CHR ''S'', CHR 0x27]
   \<and> rhs (hd (productions (fst (projr (Grammar_init no_re string_store
         [Production_new S_sym [a_sym]] (Some ''g.pg'') None Start_None True)))))
        = [S_sym, STOP]
   \<and> prod_id (productions (fst (projr (Grammar_init no_re string_store
         [Production_new S_sym [a_sym]] (Some ''g.pg'') None Start_None True))) ! 1) = Some 1"
proof -
  let ?G = "Grammar_init no_re string_store [Production_new S_sym [a_sym]] (Some ''g.pg'')
              None Start_None True"
  have s: "\<not> isl ?G" by (simp add: ev_loops)
  then obtain g st' where r: "?G = Inr (g, st')" by (cases ?G) auto
  have g: "fst (projr ?G) = g" by (simp add: r)
  have len: "length (productions (fst (projr ?G))) = 2" by (simp add: ev_loops)
  have ss: "start_symbol (fst (projr ?G)) = Some S_sym" by (simp add: ev_loops)
  have look: "map_of (symbols_by_name (fst (projr ?G))) (name S_sym) = Some S_sym"
    by (simp add: ev_loops)
  from augmented_production_first[OF r] obtain p0 rest s0 st0 where
    th: "productions g = p0 # rest" "prod_id p0 = Some 0"
      "name (symbol p0) = [CHR ''S'', CHR 0x27]" "rhs p0 = [s0, STOP]"
      "start_symbol g = Some st0"
      "map_of (symbols_by_name g) (name st0) = Some s0
         \<or> (map_of (symbols_by_name g) (name st0) = None \<and> s0 = st0)"
      "\<forall>i < length (productions g). prod_id (productions g ! i) = Some i"
    by blast
  from th(5) ss g have st0: "st0 = S_sym" by simp
  from th(6) look g st0 have s0: "s0 = S_sym" by auto
  from th(7) len g have one: "prod_id (productions g ! 1) = Some 1" by simp
  show ?thesis
    unfolding g using s th(1,2,3,4) s0 one by simp
qed

lemma collect_loop_distinct:
  "collect_loop ps sbn r2t n = Inr (sbn', r2t', n') \<Longrightarrow> distinct (map fst sbn)
   \<Longrightarrow> distinct (map fst sbn')"
proof (induction ps arbitrary: sbn r2t n)
  case Nil
  then show ?case by simp
next
  case (Cons p ps)
  from Cons.prems(1) obtain new r2t1 n1 where
    "collect_loop ps (AList.update (name new) new sbn) r2t1 n1 = Inr (sbn', r2t', n')"
    by (auto simp: collect_loop_Cons split: sum.splits prod.splits)
  then show ?case by (rule Cons.IH) (simp add: distinct_update Cons.prems(2))
qed

lemma set_py_set: "set (py_set xs) \<subseteq> set xs"
proof -
  have "set (foldl (\<lambda>s x. py_set_add x s) acc xs) \<subseteq> set acc \<union> set xs" for acc
  proof (induction xs arbitrary: acc)
    case Nil
    then show ?case by simp
  next
    case (Cons x xs)
    show ?case using Cons.IH[of "py_set_add x acc"] set_py_set_add[of x acc] by auto
  qed
  from this[of "[]"] show ?thesis by (simp add: py_set_def)
qed

lemma set_initial_terminals:
  assumes "t \<in> set (initial_terminals sbn)"
  shows "t = STOP \<or> t = EOF \<or> t = EMPTY \<or> (t \<in> snd ` set sbn \<and> cls t = Terminal)"
proof -
  let ?X = "py_set (filter (\<lambda>x. cls x = Terminal) (map snd sbn))"
  from assms have "t = STOP \<or> t \<in> set (py_set_add EOF (py_set_add EMPTY ?X))"
    unfolding initial_terminals_def using set_py_set_add[of STOP] by blast
  then have "t = STOP \<or> t = EOF \<or> t \<in> set (py_set_add EMPTY ?X)"
    using set_py_set_add[of EOF] by blast
  then have "t = STOP \<or> t = EOF \<or> t = EMPTY \<or> t \<in> set ?X"
    using set_py_set_add[of EMPTY] by blast
  moreover have "t \<in> snd ` set sbn \<and> cls t = Terminal" if "t \<in> set ?X"
    using that set_py_set[of "filter (\<lambda>x. cls x = Terminal) (map snd sbn)"] by auto
  ultimately show ?thesis by blast
qed

lemma unified_unique:
  assumes "unified sbn rtt x" and "unified sbn rtt y" and "name x = name y"
  shows "x = y"
proof -
  from assms(1) have x: "map_of sbn (name y) = Some x
      \<or> (map_of sbn (name y) = None \<and> map_of rtt (name y) = Some x)"
    unfolding unified_def assms(3) by blast
  from assms(2) have y: "map_of sbn (name y) = Some y
      \<or> (map_of sbn (name y) = None \<and> map_of rtt (name y) = Some y)"
    unfolding unified_def by blast
  from x y have "Some x = Some y" by (metis option.distinct(1))
  then show ?thesis by (rule option.inject[THEN iffD1])
qed

lemma registered_unified: "map_of sbn (name x) = Some x \<Longrightarrow> unified sbn rtt x"
  by (simp add: unified_def)

lemma enumerate_loop_member:
  assumes "p \<in> set (enumerate_loop k d xs)"
  shows "\<exists>q \<in> set xs. symbol p = symbol q \<and> rhs p = rhs q"
proof -
  from assms obtain i where i: "i < length xs" "p = enumerate_loop k d xs ! i"
    by (auto simp: in_set_conv_nth)
  with nth_enumerate_loop[OF i(1), of k d] show ?thesis by auto
qed

text \<open>
  C1 (as amended). Let construction succeed, from productions none of whose rule names
  is reserved (\<open>check_name\<close> rejects \<open>EOF\<close>, \<open>STOP\<close> and \<open>EMPTY\<close> when a grammar is
  parsed). Then every left-hand side and every member of \<open>nonterminals\<close> is the
  instance registered under its name in \<open>symbols_by_name\<close>; every right-hand side
  symbol and every member of \<open>terminals\<close> is that registered instance or else a
  terminal used inline, whose name has no entry in \<open>symbols_by_name\<close> and which is a
  member of \<open>terminals\<close>; and no two distinct instances among all of these share a
  name.
\<close>

theorem one_instance_per_name:
  assumes ok: "Grammar_init re st prods fpath recs start no_check = Inr (g, st')"
    and names: "\<forall>p \<in> set prods. name (symbol p) \<notin> set RESERVED_SYMBOL_NAMES"
  shows "(\<forall>p \<in> set (productions g).
            map_of (symbols_by_name g) (name (symbol p)) = Some (symbol p))
       \<and> (\<forall>x \<in> set (nonterminals g). map_of (symbols_by_name g) (name x) = Some x)
       \<and> (\<forall>x \<in> (\<Union>p \<in> set (productions g). set (rhs p)) \<union> set (terminals g).
            map_of (symbols_by_name g) (name x) = Some x
            \<or> (map_of (symbols_by_name g) (name x) = None \<and> cls x = Terminal
                 \<and> x \<in> set (terminals g)))
       \<and> (\<forall>x \<in> grammar_symbols g. \<forall>y \<in> grammar_symbols g. name x = name y \<longrightarrow> x = y)"
  using ok
proof (rule Grammar_init_success)
  fix fp sbn0 r2t0 n0 s0 sbn r2t n ps rtt terms
  let ?aug = "Production_new AUGSYMBOL [s0, STOP]"
  let ?sbn = "with_specials sbn"
  assume c: "collect_loop (?aug # prods) [] [] n0 = Inr (sbn, r2t, n)"
    and r: "resolve_loop ?sbn r2t (?aug # prods) [] (initial_terminals sbn) = Inr (ps, rtt, terms)"
    and pg: "productions g = enumerate_loop 0 [] (pruned ps)"
    and sg: "symbols_by_name g = ?sbn"
    and tg: "terminals g = terms"
    and ng: "nonterminals g = py_set (filter (\<lambda>x. cls x = NonTerminal) (map snd sbn))"
  \<comment> \<open>the collected dictionary\<close>
  note ci = collect_loop_inv[OF c keyed_Nil]
  from ci have ks: "keyed sbn" by blast
  from ci have dom: "fst ` set sbn = (\<lambda>p. name (symbol p)) ` set (?aug # prods)" by simp
  have dk: "distinct (map fst sbn)" using collect_loop_distinct[OF c] by simp
  have ksp: "keyed ?sbn" using ks by (rule keyed_with_specials)
  have not_res: "k \<notin> set RESERVED_SYMBOL_NAMES" if "k \<in> fst ` set sbn" for k
    using that names unfolding dom
    by (auto simp: Production_new_fields name_specials RESERVED_SYMBOL_NAMES_def)
  have reg: "map_of ?sbn (name x) = Some x" if "x \<in> snd ` set sbn" for x
  proof -
    from that obtain k where kx: "(k, x) \<in> set sbn" by force
    then have nk: "name x = k" using ks by (auto simp: keyed_def)
    from kx dk have "map_of sbn k = Some x" by simp
    moreover have "k \<notin> set RESERVED_SYMBOL_NAMES" using kx not_res by force
    ultimately show ?thesis
      using nk by (simp add: map_of_with_specials RESERVED_SYMBOL_NAMES_def)
  qed
  have reg_sp: "map_of ?sbn (name STOP) = Some STOP" "map_of ?sbn (name EOF) = Some EOF"
    "map_of ?sbn (name EMPTY) = Some EMPTY"
    by (simp_all add: map_of_with_specials name_specials)
  \<comment> \<open>the resolution\<close>
  have t0: "\<forall>t \<in> set (initial_terminals sbn). map_of ?sbn (name t) = Some t"
    using set_initial_terminals[of _ sbn] reg reg_sp by blast
  note ri = resolve_loop_inv[OF r res_inv_initial[OF t0] ksp]
  from ri have inv: "res_inv ?sbn rtt terms" by blast
  have lhs_ps: "map_of ?sbn (name (symbol p')) = Some (symbol p')" if "p' \<in> set ps" for p'
  proof -
    from ri that obtain p where p: "p \<in> set (?aug # prods)"
      "symbol p' = (case map_of ?sbn (name (symbol p)) of Some s \<Rightarrow> s | None \<Rightarrow> symbol p)"
      by blast
    from p(1) dom have "name (symbol p) \<in> fst ` set sbn" by blast
    then have "name (symbol p) \<in> fst ` set ?sbn" using dom_with_specials by blast
    then obtain s where s: "map_of ?sbn (name (symbol p)) = Some s"
      by (metis domD dom_map_of_conv_image_fst)
    with p(2) have "symbol p' = s" by simp
    moreover from keyed_map_of[OF ksp s] have "name s = name (symbol p)" by simp
    ultimately show ?thesis using s by simp
  qed
  have rhs_ps: "unified ?sbn rtt x" if "p' \<in> set ps" "x \<in> set (rhs p')" for p' x
    using ri that by blast
  have term_u: "unified ?sbn rtt x" if "x \<in> set terms" for x
    using inv that by (simp add: res_inv_def)
  have inline_in: "x \<in> set terms" if "map_of rtt (name x) = Some x" for x
    using inv map_of_SomeD[OF that] unfolding res_inv_def by fastforce
  \<comment> \<open>the final production list\<close>
  have from_ps: "\<exists>q \<in> set ps. symbol p = symbol q \<and> rhs p = rhs q" if "p \<in> set (productions g)" for p
    using enumerate_loop_member[OF that[unfolded pg]] set_pruned[of ps] by blast
  have A: "map_of (symbols_by_name g) (name (symbol p)) = Some (symbol p)"
    if "p \<in> set (productions g)" for p
    using from_ps[OF that] lhs_ps sg by auto
  have B: "map_of (symbols_by_name g) (name x) = Some x" if "x \<in> set (nonterminals g)" for x
  proof -
    from that have "x \<in> snd ` set sbn"
      unfolding ng using set_py_set[of "filter (\<lambda>x. cls x = NonTerminal) (map snd sbn)"] by auto
    then show ?thesis using reg sg by simp
  qed
  have U: "unified ?sbn rtt x" if "x \<in> grammar_symbols g" for x
  proof -
    from that consider p where "p \<in> set (productions g)" "x = symbol p"
      | p where "p \<in> set (productions g)" "x \<in> set (rhs p)"
      | "x \<in> set (terminals g)" | "x \<in> set (nonterminals g)"
      unfolding grammar_symbols_def by blast
    then show ?thesis
    proof cases
      case 1
      then show ?thesis using A sg registered_unified by metis
    next
      case 2
      then show ?thesis using from_ps rhs_ps by metis
    next
      case 3
      then show ?thesis using term_u tg by simp
    next
      case 4
      then show ?thesis using B sg registered_unified by metis
    qed
  qed
  have C: "map_of (symbols_by_name g) (name x) = Some x
            \<or> (map_of (symbols_by_name g) (name x) = None \<and> cls x = Terminal
                 \<and> x \<in> set (terminals g))"
    if "x \<in> (\<Union>p \<in> set (productions g). set (rhs p)) \<union> set (terminals g)" for x
  proof -
    from that have "x \<in> grammar_symbols g" unfolding grammar_symbols_def by blast
    from U[OF this] show ?thesis
      unfolding unified_def sg tg using inline_in by blast
  qed
  have D: "x = y" if "x \<in> grammar_symbols g" "y \<in> grammar_symbols g" "name x = name y" for x y
    using unified_unique[OF U[OF that(1)] U[OF that(2)] that(3)] .
  show ?thesis using A B C D by blast
qed

text \<open>
  C1 as stated fails for a terminal given inline in a right-hand side: for the grammar
  \<open>S: "a";\<close> the terminal \<open>a\<close> is in \<open>terminals\<close> and in the right-hand side of
  production 1, and \<open>symbols_by_name\<close> has no entry for its name
  (\<open>_resolve_references\<close> keeps such terminals in its local \<open>rec_to_term\<close> only).
\<close>

theorem inline_terminal_not_registered:
  "\<not> isl (Grammar_init no_re string_store [Production_new S_sym [a_sym]] (Some ''g.pg'')
            None Start_None True)
   \<and> a_sym \<in> set (terminals (fst (projr (Grammar_init no_re string_store
         [Production_new S_sym [a_sym]] (Some ''g.pg'') None Start_None True))))
   \<and> a_sym \<in> set (rhs (productions (fst (projr (Grammar_init no_re string_store
         [Production_new S_sym [a_sym]] (Some ''g.pg'') None Start_None True))) ! 1))
   \<and> map_of (symbols_by_name (fst (projr (Grammar_init no_re string_store
         [Production_new S_sym [a_sym]] (Some ''g.pg'') None Start_None True)))) (name a_sym)
       = None"
  by (simp add: ev_loops)

theorem one_instance_per_name_witness:
  "\<not> isl (Grammar_init no_re string_store [Production_new S_sym [a_sym]] (Some ''g.pg'')
            None Start_None True)
   \<and> name (symbol (Production_new S_sym [a_sym])) \<notin> set RESERVED_SYMBOL_NAMES
   \<and> map_of (symbols_by_name (fst (projr (Grammar_init no_re string_store
         [Production_new S_sym [a_sym]] (Some ''g.pg'') None Start_None True))))
        (name (symbol (productions (fst (projr (Grammar_init no_re string_store
           [Production_new S_sym [a_sym]] (Some ''g.pg'') None Start_None True))) ! 1)))
      = Some (symbol (productions (fst (projr (Grammar_init no_re string_store
           [Production_new S_sym [a_sym]] (Some ''g.pg'') None Start_None True))) ! 1))
   \<and> cls a_sym = Terminal
   \<and> a_sym \<in> set (terminals (fst (projr (Grammar_init no_re string_store
         [Production_new S_sym [a_sym]] (Some ''g.pg'') None Start_None True))))"
proof -
  let ?ps = "[Production_new S_sym [a_sym]]"
  let ?G = "Grammar_init no_re string_store ?ps (Some ''g.pg'') None Start_None True"
  have s: "\<not> isl ?G" by (simp add: ev_loops)
  then obtain g st' where r: "?G = Inr (g, st')" by (cases ?G) auto
  have g: "fst (projr ?G) = g" by (simp add: r)
  have names: "\<forall>p \<in> set ?ps. name (symbol p) \<notin> set RESERVED_SYMBOL_NAMES" by (simp add: ev)
  have len: "length (productions (fst (projr ?G))) = 2" by (simp add: ev_loops)
  have r1: "a_sym \<in> set (rhs (productions (fst (projr ?G)) ! 1))" by (simp add: ev_loops)
  have un: "map_of (symbols_by_name (fst (projr ?G))) (name a_sym) = None" by (simp add: ev_loops)
  note th = one_instance_per_name[OF r names]
  have m1: "productions g ! 1 \<in> set (productions g)" using len g by simp
  from th m1 have c1: "map_of (symbols_by_name g) (name (symbol (productions g ! 1)))
      = Some (symbol (productions g ! 1))" by blast
  from r1 m1 g have "a_sym \<in> (\<Union>p \<in> set (productions g). set (rhs p)) \<union> set (terminals g)"
    by auto
  with th have "map_of (symbols_by_name g) (name a_sym) = Some a_sym
      \<or> (map_of (symbols_by_name g) (name a_sym) = None \<and> cls a_sym = Terminal
           \<and> a_sym \<in> set (terminals g))" by blast
  with un g have c2: "cls a_sym = Terminal \<and> a_sym \<in> set (terminals g)" by simp
  show ?thesis unfolding g using s names c1 c2 by simp
qed

section \<open>Properties of the keyword pass\<close>

lemma RegExRecognizer_init_ok:
  "RegExRecognizer_init re p {MULTILINE} ic = Inr r \<Longrightarrow> r = RegExRecognizer p (keyword_flags ic) ic"
  by (auto simp: RegExRecognizer_init_def keyword_flags_def Let_def split: if_splits)

declare fix_keyword_loop.simps(2) [simp del]

lemma fix_keyword_loop_step:
  assumes "fix_keyword_loop re (RegExRecognizer k fl kic) (t # ts) st = Inr st'"
  shows "\<exists>st1. fix_keyword_loop re (RegExRecognizer k fl kic) ts st1 = Inr st' \<and>
     (if \<exists>v ic. recognizer_of st (oid t) = Some (StringRecognizer v ic) \<and> re_match re k fl v 0 = Some v
      then \<exists>v ic. recognizer_of st (oid t) = Some (StringRecognizer v ic)
             \<and> st1 = st\<lparr>recognizer_of := (recognizer_of st)
                            (oid t := Some (RegExRecognizer (word_boundary_pattern v) (keyword_flags ic) ic)),
                         keyword_of := (keyword_of st)(oid t := True)\<rparr>
      else st1 = st)"
proof (cases "\<exists>v ic. recognizer_of st (oid t) = Some (StringRecognizer v ic) \<and> re_match re k fl v 0 = Some v")
  case True
  then obtain v ic where v: "recognizer_of st (oid t) = Some (StringRecognizer v ic)"
    "re_match re k fl v 0 = Some v" by blast
  from assms v obtain r where
    r: "RegExRecognizer_init re (word_boundary_pattern v) {MULTILINE} ic = Inr r"
    and l: "fix_keyword_loop re (RegExRecognizer k fl kic) ts
              (st\<lparr>recognizer_of := (recognizer_of st)(oid t := Some r),
                  keyword_of := (keyword_of st)(oid t := True)\<rparr>) = Inr st'"
    by (auto simp: fix_keyword_loop.simps(2) recognizer_call_def word_boundary_pattern_def
        split: sum.splits)
  from RegExRecognizer_init_ok[OF r] l v True show ?thesis by auto
next
  case False
  with assms have "fix_keyword_loop re (RegExRecognizer k fl kic) ts st = Inr st'"
    by (auto simp: fix_keyword_loop.simps(2) recognizer_call_def
        split: option.splits recognizer.splits if_splits)
  with False show ?thesis by auto
qed

lemma fix_keyword_loop_keeps:
  assumes "fix_keyword_loop re (RegExRecognizer k fl kic) ts st = Inr st'"
    and "\<forall>v ic. recognizer_of st i \<noteq> Some (StringRecognizer v ic)"
  shows "recognizer_of st' i = recognizer_of st i \<and> (keyword_of st i \<longrightarrow> keyword_of st' i)"
  using assms
proof (induction ts arbitrary: st)
  case Nil
  then show ?case by simp
next
  case (Cons t ts)
  from fix_keyword_loop_step[OF Cons.prems(1)] obtain st1 where
    l: "fix_keyword_loop re (RegExRecognizer k fl kic) ts st1 = Inr st'"
    and s: "st1 = st \<or> (\<exists>v ic. recognizer_of st (oid t) = Some (StringRecognizer v ic)
             \<and> st1 = st\<lparr>recognizer_of := (recognizer_of st)
                            (oid t := Some (RegExRecognizer (word_boundary_pattern v) (keyword_flags ic) ic)),
                         keyword_of := (keyword_of st)(oid t := True)\<rparr>)"
    by (auto split: if_splits)
  have same: "recognizer_of st1 i = recognizer_of st i \<and> (keyword_of st i \<longrightarrow> keyword_of st1 i)"
  proof (cases "st1 = st")
    case True
    then show ?thesis by simp
  next
    case False
    with s obtain v ic where v: "recognizer_of st (oid t) = Some (StringRecognizer v ic)"
      and st1: "st1 = st\<lparr>recognizer_of := (recognizer_of st)
                            (oid t := Some (RegExRecognizer (word_boundary_pattern v) (keyword_flags ic) ic)),
                         keyword_of := (keyword_of st)(oid t := True)\<rparr>"
      by blast
    from v Cons.prems(2) have "i \<noteq> oid t" by metis
    then show ?thesis by (simp add: st1)
  qed
  with Cons.prems(2) have "\<forall>v ic. recognizer_of st1 i \<noteq> Some (StringRecognizer v ic)" by simp
  from Cons.IH[OF l this] same show ?case by simp
qed

lemma fix_keyword_loop_rewrites:
  assumes "fix_keyword_loop re (RegExRecognizer k fl kic) ts st = Inr st'"
    and "t \<in> set ts"
    and "recognizer_of st (oid t) = Some (StringRecognizer v ic)"
    and "re_match re k fl v 0 = Some v"
  shows "recognizer_of st' (oid t)
           = Some (RegExRecognizer (word_boundary_pattern v) (keyword_flags ic) ic)
         \<and> keyword_of st' (oid t)"
  using assms
proof (induction ts arbitrary: st)
  case Nil
  then show ?case by simp
next
  case (Cons u ts)
  from fix_keyword_loop_step[OF Cons.prems(1)] obtain st1 where
    l: "fix_keyword_loop re (RegExRecognizer k fl kic) ts st1 = Inr st'"
    and s: "if \<exists>v ic. recognizer_of st (oid u) = Some (StringRecognizer v ic) \<and> re_match re k fl v 0 = Some v
      then \<exists>v ic. recognizer_of st (oid u) = Some (StringRecognizer v ic)
             \<and> st1 = st\<lparr>recognizer_of := (recognizer_of st)
                            (oid u := Some (RegExRecognizer (word_boundary_pattern v) (keyword_flags ic) ic)),
                         keyword_of := (keyword_of st)(oid u := True)\<rparr>
      else st1 = st"
    by blast
  show ?case
  proof (cases "oid t = oid u")
    case True
    with Cons.prems(3,4) s have
      st1: "st1 = st\<lparr>recognizer_of := (recognizer_of st)
                            (oid u := Some (RegExRecognizer (word_boundary_pattern v) (keyword_flags ic) ic)),
                         keyword_of := (keyword_of st)(oid u := True)\<rparr>"
      by auto
    then have a: "recognizer_of st1 (oid t)
        = Some (RegExRecognizer (word_boundary_pattern v) (keyword_flags ic) ic)"
      and b: "keyword_of st1 (oid t)" using True by simp_all
    from a have "\<forall>v ic. recognizer_of st1 (oid t) \<noteq> Some (StringRecognizer v ic)" by simp
    from fix_keyword_loop_keeps[OF l this] a b show ?thesis by simp
  next
    case False
    then have "t \<noteq> u" by auto
    with Cons.prems(2) have tin: "t \<in> set ts" by simp
    from s False have "recognizer_of st1 (oid t) = recognizer_of st (oid t)"
      by (auto split: if_splits)
    with Cons.prems(3) have "recognizer_of st1 (oid t) = Some (StringRecognizer v ic)" by simp
    from Cons.IH[OF l tin this Cons.prems(4)] show ?thesis .
  qed
qed

text \<open>
  C4. Let construction succeed with a terminal named \<open>KEYWORD\<close> in the grammar
  whose recognizer is a \<open>RegExRecognizer\<close>. Then every terminal of the grammar with
  a string recognizer whose value the \<open>KEYWORD\<close> pattern matches in full at position 0
  has, after construction, the recognizer \<open>RegExRecognizer\<close> for \<^verbatim>\<open>\b<value>\b\<close>
  with the same \<open>ignore_case\<close>, and its \<open>keyword\<close> flag is set. So for the pattern
  \<^verbatim>\<open>[a-zA-Z_][a-zA-Z0-9_]*\<close> and the literal \<open>if\<close>, where \<open>re\<close> finds no match of
  \<^verbatim>\<open>\bif\b\<close> in \<open>ifx\<close> at 0, the terminal's recognizer returns no match on \<open>ifx\<close>
  at 0.
\<close>

theorem keyword_terminals_rewritten:
  assumes ok: "Grammar_init re st prods fpath recs start no_check = Inr (g, st')"
    and kw: "get_terminal g ''KEYWORD'' = Some kt"
    and kr: "recognizer_of st (oid kt) = Some (RegExRecognizer k fl kic)"
    and t: "t \<in> set (terminals g)"
    and tr: "recognizer_of st (oid t) = Some (StringRecognizer v ic)"
    and m: "re_match re k fl v 0 = Some v"
  shows "recognizer_of st' (oid t)
           = Some (RegExRecognizer ([CHR 0x5C, CHR ''b''] @ v @ [CHR 0x5C, CHR ''b''])
                     (if ic then {MULTILINE, IGNORECASE} else {MULTILINE}) ic)
         \<and> keyword_of st' (oid t)
         \<and> (k = KEYWORD_pattern \<and> v = ''if'' \<and> \<not> ic
              \<and> re_match re ([CHR 0x5C, CHR ''b''] @ ''if'' @ [CHR 0x5C, CHR ''b''])
                    {MULTILINE} ''ifx'' 0 = None
             \<longrightarrow> (\<exists>r. recognizer_of st' (oid t) = Some r \<and> recognizer_call re r ''ifx'' 0 = None))"
  using ok
proof (rule Grammar_init_success)
  fix n
  assume f: "fix_keyword_terminals re (g, st\<lparr>n_objects := n\<rparr>) = Inr (g, st')"
  from f kw kr have l: "fix_keyword_loop re (RegExRecognizer k fl kic) (terminals g)
      (st\<lparr>n_objects := n\<rparr>) = Inr st'"
    by (auto simp: fix_keyword_terminals_def split: sum.splits)
  have tr': "recognizer_of (st\<lparr>n_objects := n\<rparr>) (oid t) = Some (StringRecognizer v ic)"
    using tr by simp
  from fix_keyword_loop_rewrites[OF l t tr' m]
  have a: "recognizer_of st' (oid t)
             = Some (RegExRecognizer (word_boundary_pattern v) (keyword_flags ic) ic)"
    and b: "keyword_of st' (oid t)" by simp_all
  have c: "recognizer_call re (RegExRecognizer (word_boundary_pattern v) (keyword_flags ic) ic)
             in_str pos = re_match re (word_boundary_pattern v) (keyword_flags ic) in_str pos"
    for in_str pos
    by (simp add: recognizer_call_def)
  show ?thesis
    using a b c by (auto simp: word_boundary_pattern_def keyword_flags_def)
qed

lemmas ev_keyword = ev_loops fix_keyword_loop.simps recognizer_call_def RegExRecognizer_init_def
  example_re_def keyword_store_def keyword_grammar_def if_sym_def KEYWORD_sym_def
  KEYWORD_body_def KEYWORD_pattern_def

theorem keyword_terminals_rewritten_witness:
  "\<not> isl (Grammar_init example_re keyword_store keyword_grammar (Some ''g.pg'') None Start_None True)
   \<and> get_terminal (fst (projr (Grammar_init example_re keyword_store keyword_grammar
         (Some ''g.pg'') None Start_None True))) ''KEYWORD'' = Some KEYWORD_sym
   \<and> recognizer_of keyword_store (oid KEYWORD_sym)
        = Some (RegExRecognizer KEYWORD_pattern {MULTILINE} False)
   \<and> if_sym \<in> set (terminals (fst (projr (Grammar_init example_re keyword_store keyword_grammar
         (Some ''g.pg'') None Start_None True))))
   \<and> recognizer_of keyword_store (oid if_sym) = Some (StringRecognizer ''if'' False)
   \<and> re_match example_re KEYWORD_pattern {MULTILINE} ''if'' 0 = Some ''if''
   \<and> re_match example_re ([CHR 0x5C, CHR ''b''] @ ''if'' @ [CHR 0x5C, CHR ''b''])
        {MULTILINE} ''ifx'' 0 = None
   \<and> recognizer_call example_re (StringRecognizer ''if'' False) ''ifx'' 0 = Some ''if''
   \<and> recognizer_of (snd (projr (Grammar_init example_re keyword_store keyword_grammar
         (Some ''g.pg'') None Start_None True))) (oid if_sym)
        = Some (RegExRecognizer [CHR 0x5C, CHR ''b'', CHR ''i'', CHR ''f'', CHR 0x5C, CHR ''b'']
                  {MULTILINE} False)
   \<and> keyword_of (snd (projr (Grammar_init example_re keyword_store keyword_grammar
         (Some ''g.pg'') None Start_None True))) (oid if_sym)
   \<and> recognizer_call example_re
        (the (recognizer_of (snd (projr (Grammar_init example_re keyword_store keyword_grammar
           (Some ''g.pg'') None Start_None True))) (oid if_sym))) ''ifx'' 0 = None"
proof -
  let ?G = "Grammar_init example_re keyword_store keyword_grammar (Some ''g.pg'') None Start_None True"
  have s: "\<not> isl ?G" by (simp add: ev_keyword)
  then obtain g st' where r: "?G = Inr (g, st')" by (cases ?G) auto
  have g: "fst (projr ?G) = g" "snd (projr ?G) = st'" by (simp_all add: r)
  have kw: "get_terminal (fst (projr ?G)) ''KEYWORD'' = Some KEYWORD_sym" by (simp add: ev_keyword)
  have kr: "recognizer_of keyword_store (oid KEYWORD_sym)
              = Some (RegExRecognizer KEYWORD_pattern {MULTILINE} False)" by (simp add: ev_keyword)
  have t: "if_sym \<in> set (terminals (fst (projr ?G)))" by (simp add: ev_keyword)
  have tr: "recognizer_of keyword_store (oid if_sym) = Some (StringRecognizer ''if'' False)"
    by (simp add: ev_keyword)
  have m: "re_match example_re KEYWORD_pattern {MULTILINE} ''if'' 0 = Some ''if''"
    by (simp add: example_re_def)
  have b: "re_match example_re ([CHR 0x5C, CHR ''b''] @ ''if'' @ [CHR 0x5C, CHR ''b''])
        {MULTILINE} ''ifx'' 0 = None" by (simp add: example_re_def KEYWORD_pattern_def)
  have naive: "recognizer_call example_re (StringRecognizer ''if'' False) ''ifx'' 0 = Some ''if''"
    by (simp add: recognizer_call_def)
  note th = keyword_terminals_rewritten[OF r kw[unfolded g] kr t[unfolded g] tr m]
  from th b obtain r0 where r0: "recognizer_of st' (oid if_sym) = Some r0"
    "recognizer_call example_re r0 ''ifx'' 0 = None" by auto
  show ?thesis
    unfolding g using s kw[unfolded g] kr t[unfolded g] tr m b naive th r0 by simp
qed

end
